theory Spec2Isabelle
  imports Complex_Main "HOL-Library.Product_Lexorder" "HOL-Library.Multiset"
begin

section \<open>Python values used by the auto-fixer\<close>

text \<open>
  The repository is Python. A \<open>str\<close> is modelled as a \<open>string\<close> (a list of
  characters with code points below 256), an \<open>int\<close> as \<open>int\<close>, and a
  \<open>float\<close> as the rational number it denotes. An exception is a value of
  type \<open>exn\<close>; a function that may raise returns \<open>exn + 'a\<close>.
\<close>

datatype exn =
    IndexError
  | KeyError string
  | TimeoutExpired string
  | Exception string

text \<open>\<open>str(e)\<close>: the message of the exception; for a \<open>KeyError\<close> the quoted key.\<close>

fun str_exn :: "exn \<Rightarrow> string" where
  "str_exn IndexError = ''list index out of range''"
| "str_exn (KeyError k) = [CHR 0x27] @ k @ [CHR 0x27]"
| "str_exn (TimeoutExpired m) = m"
| "str_exn (Exception m) = m"

subsection \<open>String methods\<close>

definition newline :: char where
  "newline = CHR 0x0A"

text \<open>\<open>str.isspace\<close> on one character, for the code points below 256.\<close>

definition is_space :: "char \<Rightarrow> bool" where
  "is_space c = (let n = (of_char c :: nat) in
     (9 \<le> n \<and> n \<le> 13) \<or> (28 \<le> n \<and> n \<le> 32) \<or> n = 133 \<or> n = 160)"

definition lstrip :: "string \<Rightarrow> string" where
  "lstrip s = dropWhile is_space s"

definition rstrip :: "string \<Rightarrow> string" where
  "rstrip s = rev (dropWhile is_space (rev s))"

definition strip :: "string \<Rightarrow> string" where
  "strip s = lstrip (rstrip s)"

definition startswith :: "string \<Rightarrow> string \<Rightarrow> bool" where
  "startswith s p = (take (length p) s = p)"

definition endswith :: "string \<Rightarrow> string \<Rightarrow> bool" where
  "endswith s p = (length p \<le> length s \<and> drop (length s - length p) s = p)"

text \<open>\<open>sub in s\<close>.\<close>

fun contains :: "string \<Rightarrow> string \<Rightarrow> bool" where
  "contains sub [] = (sub = [])"
| "contains sub (c # cs) = (startswith (c # cs) sub \<or> contains sub cs)"

text \<open>\<open>s.find(sub)\<close>, with \<open>None\<close> for Python's \<open>-1\<close>; \<open>s.index(sub)\<close> is the
  same position and is only called by the source where \<open>sub in s\<close> holds.\<close>

fun find_str :: "string \<Rightarrow> string \<Rightarrow> nat option" where
  "find_str sub [] = (if sub = [] then Some 0 else None)"
| "find_str sub (c # cs) =
     (if startswith (c # cs) sub then Some 0
      else map_option Suc (find_str sub cs))"

definition index_str :: "string \<Rightarrow> string \<Rightarrow> nat" where
  "index_str sub s = (case find_str sub s of Some i \<Rightarrow> i | None \<Rightarrow> 0)"

text \<open>\<open>s.rfind(c)\<close> for a single character, \<open>-1\<close> when it does not occur.\<close>

fun rfind_char :: "char \<Rightarrow> string \<Rightarrow> int" where
  "rfind_char c [] = -1"
| "rfind_char c (x # xs) =
     (let r = rfind_char c xs in
      if r \<noteq> -1 then r + 1 else if x = c then 0 else -1)"

text \<open>\<open>s.count(c)\<close> for a single character.\<close>

definition count_char :: "char \<Rightarrow> string \<Rightarrow> nat" where
  "count_char c s = length (filter (\<lambda>x. x = c) s)"

text \<open>\<open>sep.join(parts)\<close>.\<close>

fun join_with :: "string \<Rightarrow> string list \<Rightarrow> string" where
  "join_with sep [] = []"
| "join_with sep [l] = l"
| "join_with sep (l # m # ls) = l @ sep @ join_with sep (m # ls)"

text \<open>\<open>s.split(sep)\<close> for a separator of positive length: never the empty list.
  The first argument of the loop collects the characters of the current part. The
  source splits a text into lines with \<open>'\\n'\<close> and a line with \<open>'=>'\<close>.\<close>

fun split_str_acc :: "string \<Rightarrow> string \<Rightarrow> string \<Rightarrow> string list" where
  "split_str_acc sep acc [] = [rev acc]"
| "split_str_acc sep acc (c # cs) =
     (if sep \<noteq> [] \<and> startswith (c # cs) sep
      then rev acc # split_str_acc sep [] (drop (length sep) (c # cs))
      else split_str_acc sep (c # acc) cs)"

definition split_str :: "string \<Rightarrow> string \<Rightarrow> string list" where
  "split_str sep s = split_str_acc sep [] s"

definition split_on :: "char \<Rightarrow> string \<Rightarrow> string list" where
  "split_on c s = split_str [c] s"

text \<open>\<open>s.replace(old, new)\<close>: every non-overlapping occurrence, left to right; an
  empty \<open>old\<close> matches before every character and at the end.\<close>

fun replace_str :: "string \<Rightarrow> string \<Rightarrow> string \<Rightarrow> string" where
  "replace_str old new [] = (if old = [] then new else [])"
| "replace_str old new (c # cs) =
     (if old = [] then new @ c # replace_str old new cs
      else if startswith (c # cs) old
      then new @ replace_str old new (drop (length old) (c # cs))
      else c # replace_str old new cs)"

text \<open>\<open>str(n)\<close> for a non-negative integer.\<close>

definition digit_char :: "nat \<Rightarrow> char" where
  "digit_char d = char_of (48 + d)"

fun str_nat :: "nat \<Rightarrow> string" where
  "str_nat n = (if n < 10 then [digit_char n] else str_nat (n div 10) @ [digit_char (n mod 10)])"

text \<open>\<open>xs[i]\<close> and \<open>xs[i] = v\<close> on a Python list: a negative index counts from
  the end, an index outside the list raises \<open>IndexError\<close>.\<close>

definition py_index :: "nat \<Rightarrow> int \<Rightarrow> nat option" where
  "py_index len i =
     (if 0 \<le> i \<and> i < int len then Some (nat i)
      else if i < 0 \<and> - int len \<le> i then Some (nat (int len + i))
      else None)"

definition list_get :: "'a list \<Rightarrow> int \<Rightarrow> exn + 'a" where
  "list_get xs i =
     (case py_index (length xs) i of None \<Rightarrow> Inl IndexError | Some j \<Rightarrow> Inr (xs ! j))"

definition list_set :: "'a list \<Rightarrow> int \<Rightarrow> 'a \<Rightarrow> exn + 'a list" where
  "list_set xs i v =
     (case py_index (length xs) i of None \<Rightarrow> Inl IndexError | Some j \<Rightarrow> Inr (xs[j := v]))"

text \<open>\<open>xs.sort(key=f, reverse=True)\<close>: Python's sort is stable, and with
  \<open>reverse=True\<close> elements with equal keys still keep their original order.\<close>

fun insort_desc :: "('a \<Rightarrow> 'k::linorder) \<Rightarrow> 'a \<Rightarrow> 'a list \<Rightarrow> 'a list" where
  "insort_desc f x [] = [x]"
| "insort_desc f x (y # ys) =
     (if f y \<le> f x then x # y # ys else y # insort_desc f x ys)"

definition sort_reverse :: "('a \<Rightarrow> 'k::linorder) \<Rightarrow> 'a list \<Rightarrow> 'a list" where
  "sort_reverse f xs = foldr (insort_desc f) xs []"

declare str_nat.simps [simp del]

subsection \<open>Floating-point numbers\<close>

text \<open>
  A Python \<open>float\<close> is an IEEE 754 double. Every finite double is a rational number,
  and \<open>float64 x\<close> is the double nearest to the rational \<open>x\<close>, the one with the even
  significand when two doubles are equally near: the significand has 53 bits, and
  below \<open>pow2 (- 1022)\<close> the doubles are the multiples of \<open>pow2 (- 1074)\<close>. A decimal literal
  such as \<open>0.9\<close> denotes \<open>float64 (9 / 10)\<close>, and the product, sum, difference or
  quotient of two floats is \<open>float64\<close> of the exact one. Infinities and NaN are not
  represented: a result beyond the largest finite double, which the source turns into
  an infinity, is outside the model.

  The confidences of the edits of the syntax fix generator and the scores of the
  ranking engine are computed with this rounding. The mean that \<open>apply_fixes\<close> takes
  of the confidences, the penalties of the orchestrator and the confidences of the
  type fixes are kept in exact arithmetic.
\<close>

text \<open>The number of binary digits of a natural number.\<close>

fun bit_length :: "nat \<Rightarrow> nat" where
  "bit_length n = (if n = 0 then 0 else Suc (bit_length (n div 2)))"

declare bit_length.simps [simp del]

definition pow2 :: "int \<Rightarrow> rat" where
  "pow2 k = (if 0 \<le> k then 2 ^ nat k else 1 / 2 ^ nat (- k))"

text \<open>For \<open>x > 0\<close>, the integer \<open>k\<close> with \<open>pow2 k \<le> x < pow2 (k + 1)\<close>.\<close>

definition floor_log2 :: "rat \<Rightarrow> int" where
  "floor_log2 x =
     (if 1 \<le> x then int (bit_length (nat \<lfloor>x\<rfloor>)) - 1
      else - int (bit_length (nat (\<lceil>1 / x\<rceil> - 1))))"

text \<open>The nearest integer, the even one of two that are equally near.\<close>

definition round_half_even :: "rat \<Rightarrow> int" where
  "round_half_even m =
     (let f = \<lfloor>m\<rfloor>; r = m - of_int f
      in if r < 1 / 2 then f
         else if 1 / 2 < r then f + 1
         else if even f then f else f + 1)"

definition float64 :: "rat \<Rightarrow> rat" where
  "float64 x =
     (if x = 0 then 0
      else (let e = max (floor_log2 \<bar>x\<bar> - 52) (- 1074)
            in sgn x * of_int (round_half_even (\<bar>x\<bar> / pow2 e)) * pow2 e))"

section \<open>Diagnostics and analysis results (ast\_analyzer.py)\<close>

record SyntaxError =
  err_line :: int
  err_column :: int
  message :: string
  severity :: string
  error_code :: string
  source :: string

datatype ASTNode = ASTNode
  (node_type: string) (node_start: int) (node_end: int)
  (node_line: int) (node_column: int) (raw: string) (children: "ASTNode list")

record ASTAnalysis =
  is_valid :: bool
  syntax_errors :: "SyntaxError list"
  ast_nodes :: "ASTNode list"
  parse_time :: rat
  file_type :: string

section \<open>Syntax fix generator (syntax\_fix\_generator.py)\<close>

record SyntaxFix =
  line :: int
  column :: int
  old_text :: string
  new_text :: string
  description :: string
  confidence :: rat
  fix_type :: string

record FixResult =
  success :: bool
  fixed_content :: string
  fixes_applied :: "SyntaxFix list"
  errors_remaining :: "SyntaxError list"
  result_confidence :: rat

text \<open>The entries of \<open>fix_patterns\<close> that the handlers read.\<close>

record pattern_info =
  pi_description :: string
  pi_confidence :: rat
  pi_fix_type :: string

definition UNMATCHED_PAREN :: pattern_info where
  "UNMATCHED_PAREN = \<lparr>pi_description = ''Fix unmatched parentheses'',
     pi_confidence = float64 (9 / 10), pi_fix_type = ''parentheses''\<rparr>"

definition INCOMPLETE_CALL :: pattern_info where
  "INCOMPLETE_CALL = \<lparr>pi_description = ''Complete incomplete function calls'',
     pi_confidence = float64 (95 / 100), pi_fix_type = ''call_completion''\<rparr>"

definition MALFORMED_TIMEOUT :: pattern_info where
  "MALFORMED_TIMEOUT = \<lparr>pi_description = ''Fix malformed setTimeout patterns'',
     pi_confidence = float64 (85 / 100), pi_fix_type = ''async_pattern''\<rparr>"

text \<open>One round of the removal loop: drop the last \<open>)\<close>, if there is one.\<close>

definition remove_last_paren :: "string \<Rightarrow> string" where
  "remove_last_paren s =
     (let last_paren = rfind_char (CHR '')'') s in
      if last_paren \<noteq> -1
      then take (nat last_paren) s @ drop (nat last_paren + 1) s
      else s)"

definition fix_unmatched_parentheses :: "SyntaxError \<Rightarrow> string \<Rightarrow> int \<Rightarrow> SyntaxFix option" where
  "fix_unmatched_parentheses error txt line_num =
     (let open_parens = count_char (CHR ''('') txt;
          close_parens = count_char (CHR '')'') txt
      in if open_parens > close_parens then
           (let missing_parens = open_parens - close_parens;
                new_line =
                  (if endswith (rstrip txt) '';''
                   then butlast (rstrip txt) @ replicate missing_parens (CHR '')'') @ '';''
                   else rstrip txt @ replicate missing_parens (CHR '')''))
            in Some \<lparr>line = line_num,
                 column = int (length (rstrip txt)) + 1,
                 old_text = rstrip txt,
                 new_text = new_line,
                 description = pi_description UNMATCHED_PAREN @ '' - add ''
                   @ str_nat missing_parens @ '' closing paren(s)'',
                 confidence = pi_confidence UNMATCHED_PAREN,
                 fix_type = pi_fix_type UNMATCHED_PAREN\<rparr>)
         else if close_parens > open_parens then
           (let excess_parens = close_parens - open_parens;
                new_line = (remove_last_paren ^^ excess_parens) txt
            in Some \<lparr>line = line_num,
                 column = 1,
                 old_text = rstrip txt,
                 new_text = rstrip new_line,
                 description = pi_description UNMATCHED_PAREN @ '' - remove ''
                   @ str_nat excess_parens @ '' extra paren(s)'',
                 confidence = float64 (pi_confidence UNMATCHED_PAREN * float64 (8 / 10)),
                 fix_type = pi_fix_type UNMATCHED_PAREN\<rparr>)
         else None)"

text \<open>The loop over \<open>function_patterns\<close> of \<open>_fix_incomplete_call\<close>: the first
  pattern that occurs in the line with more \<open>(\<close> than \<open>)\<close> from its position on
  decides.\<close>

fun incomplete_call_patterns :: "string list \<Rightarrow> string \<Rightarrow> int \<Rightarrow> SyntaxFix option" where
  "incomplete_call_patterns [] txt line_num = None"
| "incomplete_call_patterns (pattern # rest) txt line_num =
     (if contains pattern txt then
        (let open_parens = count_char (CHR ''('') (drop (index_str pattern txt) txt);
             close_parens = count_char (CHR '')'') (drop (index_str pattern txt) txt)
         in if open_parens > close_parens then
              (let missing_parens = open_parens - close_parens;
                   new_line = rstrip txt @ replicate missing_parens (CHR '')'')
               in Some \<lparr>line = line_num,
                    column = int (length (rstrip txt)) + 1,
                    old_text = rstrip txt,
                    new_text = new_line,
                    description = pi_description INCOMPLETE_CALL @ '' - complete ''
                      @ pattern @ '' call'',
                    confidence = float64 (pi_confidence INCOMPLETE_CALL * float64 (9 / 10)),
                    fix_type = pi_fix_type INCOMPLETE_CALL\<rparr>)
            else incomplete_call_patterns rest txt line_num)
      else incomplete_call_patterns rest txt line_num)"

definition function_patterns :: "string list" where
  "function_patterns = [''expect('', ''render('', ''waitFor('', ''screen.getBy'']"

definition fix_incomplete_call :: "SyntaxError \<Rightarrow> string \<Rightarrow> int \<Rightarrow> SyntaxFix option" where
  "fix_incomplete_call error txt line_num =
     (if contains ''setSystemTime('' txt \<and> contains '';'' txt \<and> \<not> endswith (strip txt) '');''
      then
        (let semicolon_pos = index_str '';'' txt;
             new_line = take semicolon_pos txt @ '')'' @ drop semicolon_pos txt
         in Some \<lparr>line = line_num,
              column = int semicolon_pos + 1,
              old_text = rstrip txt,
              new_text = rstrip new_line,
              description = pi_description INCOMPLETE_CALL @ '' - complete setSystemTime call'',
              confidence = pi_confidence INCOMPLETE_CALL,
              fix_type = pi_fix_type INCOMPLETE_CALL\<rparr>)
      else incomplete_call_patterns function_patterns txt line_num)"

definition fix_malformed_timeout :: "SyntaxError \<Rightarrow> string \<Rightarrow> int \<Rightarrow> SyntaxFix option" where
  "fix_malformed_timeout error txt line_num =
     (if contains ''setTimeout(('' txt \<and> contains '';'' txt then
        (let new_line = replace_str ''setTimeout((;'' ''setTimeout(()'' txt
         in Some \<lparr>line = line_num,
              column = int (index_str ''setTimeout('' txt) + 1,
              old_text = rstrip txt,
              new_text = rstrip new_line,
              description = pi_description MALFORMED_TIMEOUT @ '' - fix arrow function syntax'',
              confidence = pi_confidence MALFORMED_TIMEOUT,
              fix_type = pi_fix_type MALFORMED_TIMEOUT\<rparr>)
      else if contains ''setTimeout(() =>'' txt \<and> contains ''=>'' txt
              \<and> length (split_str ''=>'' txt) > 2 then
        (let parts = split_str ''=>'' txt;
             new_line = hd parts @ ''=>'' @ concat (drop 2 parts)
         in Some \<lparr>line = line_num,
              column = int (index_str ''setTimeout('' txt) + 1,
              old_text = rstrip txt,
              new_text = rstrip new_line,
              description = pi_description MALFORMED_TIMEOUT @ '' - remove duplicate arrow function'',
              confidence = float64 (pi_confidence MALFORMED_TIMEOUT * float64 (8 / 10)),
              fix_type = pi_fix_type MALFORMED_TIMEOUT\<rparr>)
      else None)"

definition statement_patterns :: "string list" where
  "statement_patterns = [''const '', ''let '', ''var '', ''return '', ''throw '', ''import '']"

definition fix_general_parse_error :: "SyntaxError \<Rightarrow> string \<Rightarrow> int \<Rightarrow> SyntaxFix option" where
  "fix_general_parse_error error txt line_num =
     (if \<not> (\<exists>e \<in> set ['';'', ''{'', ''}'', '')'', '']'']. endswith (strip txt) e) \<and> strip txt \<noteq> []
         \<and> (\<exists>pattern \<in> set statement_patterns. startswith (strip txt) pattern)
      then Some \<lparr>line = line_num,
             column = int (length (rstrip txt)) + 1,
             old_text = rstrip txt,
             new_text = rstrip txt @ '';'',
             description = ''Add missing semicolon'',
             confidence = float64 (7 / 10),
             fix_type = ''semicolon''\<rparr>
      else None)"

definition generate_fix_for_error :: "SyntaxError \<Rightarrow> string list \<Rightarrow> string \<Rightarrow> exn + SyntaxFix option" where
  "generate_fix_for_error error lines content =
     (let code = error_code error; line_num = err_line error
      in if line_num > int (length lines) then Inr None
         else (case list_get lines (line_num - 1) of
                 Inl e \<Rightarrow> Inl e
               | Inr txt \<Rightarrow>
                   Inr (if code = ''UNMATCHED_PAREN'' then fix_unmatched_parentheses error txt line_num
                        else if code = ''INCOMPLETE_CALL'' then fix_incomplete_call error txt line_num
                        else if code = ''MALFORMED_TIMEOUT'' then fix_malformed_timeout error txt line_num
                        else if code = ''PARSE_ERROR'' \<or> code = ''PARSE_FAILED''
                        then fix_general_parse_error error txt line_num
                        else None)))"

text \<open>The loop of \<open>generate_fixes\<close> over the diagnostics; an exception raised
  while a fix is generated leaves the loop.\<close>

fun collect_fixes :: "SyntaxError list \<Rightarrow> string list \<Rightarrow> string \<Rightarrow> SyntaxFix list \<Rightarrow> exn + SyntaxFix list" where
  "collect_fixes [] lines content fixes = Inr fixes"
| "collect_fixes (error # rest) lines content fixes =
     (if source error = ''ast'' then
        (case generate_fix_for_error error lines content of
           Inl e \<Rightarrow> Inl e
         | Inr None \<Rightarrow> collect_fixes rest lines content fixes
         | Inr (Some fix) \<Rightarrow> collect_fixes rest lines content (fixes @ [fix]))
      else collect_fixes rest lines content fixes)"

definition generate_fixes :: "ASTAnalysis \<Rightarrow> string \<Rightarrow> exn + SyntaxFix list" where
  "generate_fixes analysis content =
     (case collect_fixes (syntax_errors analysis) (split_on newline content) content [] of
        Inl e \<Rightarrow> Inl e
      | Inr fixes \<Rightarrow> Inr (sort_reverse (\<lambda>x. (line x, column x)) fixes))"

text \<open>The loop of \<open>apply_fixes\<close>: the state is the list of lines and the fixes
  applied so far.\<close>

fun apply_loop :: "string list \<Rightarrow> SyntaxFix list \<Rightarrow> SyntaxFix list \<Rightarrow> exn + (string list \<times> SyntaxFix list)" where
  "apply_loop lines applied [] = Inr (lines, applied)"
| "apply_loop lines applied (fix # rest) =
     (if line fix \<le> int (length lines) then
        (case list_get lines (line fix - 1) of
           Inl e \<Rightarrow> Inl e
         | Inr old_line \<Rightarrow>
            (case list_set lines (line fix - 1) (new_text fix) of
               Inl e \<Rightarrow> Inl e
             | Inr lines' \<Rightarrow> apply_loop lines' (applied @ [fix]) rest))
      else apply_loop lines applied rest)"

definition apply_fixes :: "string \<Rightarrow> SyntaxFix list \<Rightarrow> exn + FixResult" where
  "apply_fixes content fixes =
     (if fixes = [] then
        Inr \<lparr>success = True, fixed_content = content, fixes_applied = [],
             errors_remaining = [], result_confidence = 1\<rparr>
      else
        (case apply_loop (split_on newline content) [] fixes of
           Inl e \<Rightarrow> Inl e
         | Inr (lines, applied) \<Rightarrow>
             Inr \<lparr>success = (length applied > 0),
                  fixed_content = join_with [newline] lines,
                  fixes_applied = applied,
                  errors_remaining = [],
                  result_confidence =
                    (if applied \<noteq> []
                     then sum_list (map confidence applied) / of_nat (length applied)
                     else 1)\<rparr>))"

definition fix_content :: "ASTAnalysis \<Rightarrow> string \<Rightarrow> exn + FixResult" where
  "fix_content analysis content =
     (case generate_fixes analysis content of
        Inl e \<Rightarrow> Inl e
      | Inr fixes \<Rightarrow> apply_fixes content fixes)"

section \<open>Pattern diagnostics of the parser adapter (ast\_analyzer.py)\<close>

text \<open>The body of the loop of \<open>detect_specific_errors\<close> for one line.\<close>

definition detect_line :: "nat \<Rightarrow> string \<Rightarrow> SyntaxError list" where
  "detect_line line_num txt =
     (if (\<exists>pattern \<in> set [''expect('', ''render('', ''waitFor('', ''screen.getBy'']. contains pattern txt)
      then
        (let open_parens = count_char (CHR ''('') txt;
             close_parens = count_char (CHR '')'') txt
         in if open_parens > close_parens then
              [\<lparr>err_line = int line_num,
                err_column = int (length txt) - int (length (lstrip txt)) + 1,
                message = ''Unmatched opening parenthesis in function call'',
                severity = ''error'', error_code = ''UNMATCHED_PAREN'', source = ''ast''\<rparr>]
            else if close_parens > open_parens then
              [\<lparr>err_line = int line_num,
                err_column = rfind_char (CHR '')'') txt + 1,
                message = ''Unmatched closing parenthesis in function call'',
                severity = ''error'', error_code = ''UNMATCHED_PAREN'', source = ''ast''\<rparr>]
            else [])
      else [])
     @ (if contains ''setSystemTime('' txt \<and> \<not> endswith (strip txt) '');''
           \<and> contains '';'' txt \<and> \<not> contains '')'' (drop (index_str '';'' txt) txt)
        then [\<lparr>err_line = int line_num,
                err_column = int (index_str ''setSystemTime'' txt) + 1,
                message = ''Incomplete setSystemTime call - missing closing parenthesis'',
                severity = ''error'', error_code = ''INCOMPLETE_CALL'', source = ''ast''\<rparr>]
        else [])
     @ (if contains ''setTimeout(()'' txt \<and> contains '';'' txt
           \<and> \<not> contains '')'' (drop (index_str '';'' txt) txt)
        then [\<lparr>err_line = int line_num,
                err_column = int (index_str ''setTimeout'' txt) + 1,
                message = ''Malformed setTimeout pattern'',
                severity = ''error'', error_code = ''MALFORMED_TIMEOUT'', source = ''ast''\<rparr>]
        else [])"

fun detect_lines :: "nat \<Rightarrow> string list \<Rightarrow> SyntaxError list" where
  "detect_lines i [] = []"
| "detect_lines i (txt # rest) = detect_line (i + 1) txt @ detect_lines (i + 1) rest"

definition detect_specific_errors :: "ASTAnalysis \<Rightarrow> string \<Rightarrow> SyntaxError list" where
  "detect_specific_errors analysis content = detect_lines 0 (split_on newline content)"

section \<open>Orchestrator (next\_gen\_auto\_fixer.py)\<close>

text \<open>\<open>_calculate_confidence\<close>: the local variable \<open>base_confidence\<close> is updated
  step by step, in the order of the source.\<close>

definition calculate_confidence ::
  "string \<Rightarrow> string \<Rightarrow> string list \<Rightarrow> ASTAnalysis option \<Rightarrow> bool \<Rightarrow> string list \<Rightarrow> rat" where
  "calculate_confidence original fixed fixes ast_analysis manual_review errors =
     (if fixes = [] then (if original = fixed then 1 else 0)
      else
        (let base_confidence = 9 / 10;
             base_confidence =
               (if manual_review then base_confidence - 2 / 10 else base_confidence);
             base_confidence =
               (if errors \<noteq> [] then base_confidence - (1 / 10) * of_nat (length errors)
                else base_confidence);
             base_confidence =
               (if (case ast_analysis of None \<Rightarrow> False | Some a \<Rightarrow> is_valid a)
                then base_confidence + 1 / 10 else base_confidence);
             base_confidence =
               (if length fixes > 10 then base_confidence - 1 / 10
                else if length fixes > 5 then base_confidence - 5 / 100
                else base_confidence)
         in max 0 (min 1 base_confidence)))"


section \<open>Contextual ranking engine (ml\_context\_engine.py)\<close>

record CodeContext =
  ctx_file_type :: string
  ctx_framework :: string
  ctx_patterns :: "string list"
  ctx_imports :: "string list"
  ctx_functions :: "string list"
  ctx_variables :: "string list"
  ctx_test_type :: string
  ctx_complexity_score :: rat

record ContextualFix =
  cf_line :: int
  cf_column :: int
  cf_fix_type :: string
  cf_old_text :: string
  cf_new_text :: string
  cf_description :: string
  cf_confidence :: rat
  context_match :: rat
  similar_patterns :: "string list"
  reasoning :: string

text \<open>A candidate fix is a dictionary; every key the engine reads may be absent.\<close>

record candidate =
  d_line :: "int option"
  d_column :: "int option"
  d_fix_type :: "string option"
  d_old_text :: "string option"
  d_new_text :: "string option"
  d_description :: "string option"
  d_framework :: "string option"
  d_test_type :: "string option"
  d_patterns :: "string list option"
  d_required_imports :: "string list option"

record history_entry =
  h_code_hash :: string
  h_fix_type :: string
  h_success :: bool

text \<open>The state of the engine that ranking reads: the success rate recorded per fix
  type (the entry may lack the rate), the fix history, and the prediction of the
  pattern classifier for a piece of code, which rests on a hash of the code and on the
  learned tables and is taken as given.\<close>

record MLContextEngine =
  context_patterns :: "string \<Rightarrow> rat option option"
  fix_history :: "history_entry list"
  predict_fix_type :: "string \<Rightarrow> string \<times> rat"

definition calculate_context_match :: "candidate \<Rightarrow> CodeContext \<Rightarrow> rat" where
  "calculate_context_match fix context =
     (let match_score = 0;
          match_score =
            (if d_framework fix = Some (ctx_framework context)
             then float64 (match_score + float64 (3 / 10))
             else match_score);
          match_score =
            (if d_test_type fix = Some (ctx_test_type context)
             then float64 (match_score + float64 (2 / 10))
             else match_score);
          fix_patterns = (case d_patterns fix of None \<Rightarrow> [] | Some ps \<Rightarrow> ps);
          pattern_overlap = card (set fix_patterns \<inter> set (ctx_patterns context));
          match_score =
            (if fix_patterns \<noteq> []
             then float64 (match_score
                    + float64 (float64 (3 / 10)
                        * float64 (of_nat pattern_overlap / of_nat (length fix_patterns))))
             else match_score);
          fix_imports = (case d_required_imports fix of None \<Rightarrow> [] | Some is \<Rightarrow> is);
          import_overlap = card (set fix_imports \<inter> set (ctx_imports context));
          match_score =
            (if fix_imports \<noteq> []
             then float64 (match_score
                    + float64 (float64 (2 / 10)
                        * float64 (of_nat import_overlap / of_nat (length fix_imports))))
             else match_score)
      in min match_score 1)"

definition get_ml_confidence :: "MLContextEngine \<Rightarrow> candidate \<Rightarrow> CodeContext \<Rightarrow> string \<Rightarrow> rat" where
  "get_ml_confidence engine fix context code =
     (let (predicted_fix, base_confidence) = predict_fix_type engine code;
          confidence0 =
            (if Some predicted_fix = d_fix_type fix then base_confidence
             else float64 (base_confidence * float64 (7 / 10)));
          ftype = (case d_fix_type fix of None \<Rightarrow> ''unknown'' | Some t \<Rightarrow> t);
          confidence1 =
            (case context_patterns engine ftype of
               None \<Rightarrow> confidence0
             | Some pattern_info \<Rightarrow>
                 (let context_boost =
                        float64 ((case pattern_info of None \<Rightarrow> float64 (5 / 10) | Some rate \<Rightarrow> rate)
                                 - float64 (5 / 10))
                  in float64 (confidence0 + float64 (context_boost * float64 (3 / 10)))))
      in max (float64 (1 / 10)) (min confidence1 1))"

definition find_similar_patterns :: "MLContextEngine \<Rightarrow> string \<Rightarrow> string \<Rightarrow> string list" where
  "find_similar_patterns engine code ftype =
     take 5
       (map h_code_hash
          (filter (\<lambda>entry. h_fix_type entry = ftype \<and> h_success entry)
             (drop (length (fix_history engine) - 50) (fix_history engine))))"

definition generate_reasoning :: "candidate \<Rightarrow> CodeContext \<Rightarrow> string list \<Rightarrow> string" where
  "generate_reasoning fix context similar =
     (let reasons =
            (if ctx_framework context \<noteq> []
             then [''Detected '' @ ctx_framework context @ '' framework''] else [])
          @ (if ctx_test_type context \<noteq> []
             then [''Identified as '' @ ctx_test_type context @ '' test''] else [])
          @ (if similar \<noteq> []
             then [''Found '' @ str_nat (length similar) @ '' similar successful patterns'']
             else [])
          @ (if ctx_complexity_score context > 5
             then [''High complexity code may benefit from this fix''] else [])
      in if reasons \<noteq> [] then join_with ''; '' reasons else ''General fix recommendation'')"

text \<open>The body of the loop of \<open>suggest_contextual_fixes\<close> for one candidate;
  \<open>fix['fix_type']\<close> raises \<open>KeyError\<close> when the key is absent.\<close>

definition contextual_fix_of ::
  "MLContextEngine \<Rightarrow> CodeContext \<Rightarrow> string \<Rightarrow> candidate \<Rightarrow> exn + ContextualFix" where
  "contextual_fix_of engine context code fix =
     (let match = calculate_context_match fix context;
          ml_confidence = get_ml_confidence engine fix context code
      in case d_fix_type fix of
           None \<Rightarrow> Inl (KeyError ''fix_type'')
         | Some ftype \<Rightarrow>
             (let similar = find_similar_patterns engine code ftype;
                  reason = generate_reasoning fix context similar
              in Inr \<lparr>cf_line = (case d_line fix of None \<Rightarrow> 1 | Some l \<Rightarrow> l),
                      cf_column = (case d_column fix of None \<Rightarrow> 1 | Some c \<Rightarrow> c),
                      cf_fix_type = ftype,
                      cf_old_text = (case d_old_text fix of None \<Rightarrow> [] | Some t \<Rightarrow> t),
                      cf_new_text = (case d_new_text fix of None \<Rightarrow> [] | Some t \<Rightarrow> t),
                      cf_description = (case d_description fix of None \<Rightarrow> [] | Some t \<Rightarrow> t),
                      cf_confidence = ml_confidence,
                      context_match = match,
                      similar_patterns = similar,
                      reasoning = reason\<rparr>))"

fun contextual_fixes_loop ::
  "MLContextEngine \<Rightarrow> CodeContext \<Rightarrow> string \<Rightarrow> candidate list \<Rightarrow> ContextualFix list
     \<Rightarrow> exn + ContextualFix list" where
  "contextual_fixes_loop engine context code [] acc = Inr acc"
| "contextual_fixes_loop engine context code (fix # rest) acc =
     (case contextual_fix_of engine context code fix of
        Inl e \<Rightarrow> Inl e
      | Inr cf \<Rightarrow> contextual_fixes_loop engine context code rest (acc @ [cf]))"

text \<open>The sort key of the ranking.\<close>

definition combined_score :: "ContextualFix \<Rightarrow> rat" where
  "combined_score x =
     float64 (float64 (cf_confidence x * float64 (7 / 10))
              + float64 (context_match x * float64 (3 / 10)))"

text \<open>\<open>suggest_contextual_fixes\<close>; the context is the result of \<open>analyze_context\<close>
  on the code and the file path, which is a series of regular-expression searches and
  is taken as given.\<close>

definition suggest_contextual_fixes ::
  "MLContextEngine \<Rightarrow> CodeContext \<Rightarrow> string \<Rightarrow> candidate list \<Rightarrow> exn + ContextualFix list" where
  "suggest_contextual_fixes engine context code available_fixes =
     (case contextual_fixes_loop engine context code available_fixes [] of
        Inl e \<Rightarrow> Inl e
      | Inr contextual_fixes \<Rightarrow> Inr (sort_reverse combined_score contextual_fixes))"

section \<open>Type fix generator (type\_fix\_generator.py)\<close>

record TypeDiagnostic =
  td_line :: int
  td_column :: int
  td_message :: string
  td_severity :: string
  td_code :: int
  td_category :: string
  td_file :: string

record TypeFix =
  tf_line :: int
  tf_column :: int
  tf_fix_type :: string
  tf_old_text :: string
  tf_new_text :: string
  tf_description :: string
  tf_confidence :: rat
  type_info :: "string option"

definition apostrophe :: char where
  "apostrophe = CHR 0x27"

text \<open>
  \<open>re.search(r"Property '([^']+)' does not exist", message)\<close>: the group of the
  leftmost match. At a given position the pattern can only match with the longest run
  of characters other than the apostrophe, because the character after the group must
  be an apostrophe; the run must not be empty.
\<close>

definition match_property_at :: "string \<Rightarrow> string option" where
  "match_property_at s =
     (if startswith s (''Property '' @ [apostrophe]) then
        (let rest = drop (length (''Property '' @ [apostrophe])) s;
             name = takeWhile (\<lambda>c. c \<noteq> apostrophe) rest;
             after = dropWhile (\<lambda>c. c \<noteq> apostrophe) rest
         in if name \<noteq> [] \<and> startswith after ([apostrophe] @ '' does not exist'')
            then Some name else None)
      else None)"

fun search_property :: "string \<Rightarrow> string option" where
  "search_property [] = None"
| "search_property (c # cs) =
     (case match_property_at (c # cs) of
        Some name \<Rightarrow> Some name
      | None \<Rightarrow> search_property cs)"

definition valid_queries :: "string list" where
  "valid_queries = [''getByText'', ''getByRole'', ''getByLabelText'', ''getByPlaceholderText'',
     ''getByAltText'', ''getByTitle'', ''getByTestId'', ''getByDisplayValue'']"

definition fix_property_not_exist :: "TypeDiagnostic \<Rightarrow> string \<Rightarrow> TypeFix option" where
  "fix_property_not_exist diagnostic txt =
     (case search_property (td_message diagnostic) of
        None \<Rightarrow> None
      | Some property_name \<Rightarrow>
          if contains ''mockReturnValue'' txt \<or> contains ''mockImplementation'' txt then
            (if \<not> contains ''as any'' txt then
               (let new_line = replace_str property_name (property_name @ '' as any'') txt
                in Some \<lparr>tf_line = td_line diagnostic,
                     tf_column = td_column diagnostic,
                     tf_fix_type = ''type_assertion'',
                     tf_old_text = strip txt,
                     tf_new_text = strip new_line,
                     tf_description = ''Add type assertion for mock property ''
                       @ [apostrophe] @ property_name @ [apostrophe],
                     tf_confidence = 8 / 10,
                     type_info = Some ''any''\<rparr>)
             else None)
          else if contains ''screen.'' txt \<and> startswith property_name ''getBy'' then
            (if property_name \<in> set valid_queries then
               Some \<lparr>tf_line = td_line diagnostic,
                    tf_column = td_column diagnostic,
                    tf_fix_type = ''import_fix'',
                    tf_old_text = strip txt,
                    tf_new_text = strip txt,
                    tf_description = ''Valid screen query '' @ [apostrophe] @ property_name
                      @ [apostrophe] @ '' - ensure proper imports'',
                    tf_confidence = 9 / 10,
                    type_info = Some ''screen_query''\<rparr>
             else None)
          else None)"

section \<open>Parser adapter (ast\_analyzer.py)\<close>

text \<open>
  The adapter runs an external Node.js process. What the outside world does is an input
  of the model: the files, what the installation check, the Node process and the JSON
  decoder do, and the clock. The Node process decides from the files and the path it is
  given. The dictionary decoded from the output of the script has the keys the script
  writes; the keys the adapter reads with a default may be absent.
\<close>

record completed_process =
  returncode :: int
  stdout :: string
  stderr :: string

record raw_error =
  re_line :: int
  re_column :: int
  re_message :: string
  re_severity :: string
  re_errorCode :: "string option"
  re_source :: string

record raw_node =
  rn_type :: string
  rn_start :: int
  rn_end :: int
  rn_line :: int
  rn_column :: int
  rn_raw :: string

record parse_result =
  pr_success :: bool
  pr_error :: "string option"
  pr_isValid :: bool
  pr_syntaxErrors :: "raw_error list"
  pr_astNodes :: "raw_node list"
  pr_fileType :: "string option"

text \<open>The result type of the pattern-based fixer (enhanced\_auto\_fixer.py).\<close>

record EnhancedFixResult =
  efr_success :: bool
  changes_made :: "string list"
  issues_found :: "string list"
  file_content :: string
  efr_confidence :: rat

text \<open>
  The fields of the world: the files by path; whether the installation check raises;
  the path of the parser script; what the Node process returns for a path, given the
  files; the JSON decoder; the seconds a call takes and the seconds a batch takes; the
  name the system gives to a new temporary file, without its suffix; whether opening
  a path for writing raises; what \<open>EnhancedAutoFixer.fix_file\<close> returns for a path and
  the content of that file (its passes are regular-expression substitutions and it
  catches its own exceptions); and the paths a directory holds for a glob pattern.
\<close>

record world =
  files :: "string \<Rightarrow> string option"
  ensure_typescript_installed :: "exn option"
  node_script_path :: "string option"
  run_node :: "(string \<Rightarrow> string option) \<Rightarrow> string \<Rightarrow> exn + completed_process"
  json_loads :: "string \<Rightarrow> exn + parse_result"
  elapsed :: rat
  batch_elapsed :: rat
  tmp_prefix :: "exn + string"
  open_write :: "string \<Rightarrow> exn option"
  enhanced_fix_file :: "string \<Rightarrow> string \<Rightarrow> EnhancedFixResult"
  glob :: "string \<Rightarrow> string \<Rightarrow> string list"

text \<open>The dictionary that \<open>parse\<close> returns when the call failed.\<close>

definition parse_failure :: "string \<Rightarrow> parse_result" where
  "parse_failure msg = \<lparr>pr_success = False, pr_error = Some msg, pr_isValid = False,
     pr_syntaxErrors = [], pr_astNodes = [], pr_fileType = Some ''unknown''\<rparr>"

text \<open>The two \<open>except\<close> clauses of \<open>parse\<close>.\<close>

fun parse_handler :: "exn \<Rightarrow> parse_result" where
  "parse_handler (TimeoutExpired m) = parse_failure ''Parse timeout''"
| "parse_handler e = parse_failure (str_exn e)"

text \<open>\<open>JSASTParser.parse\<close>. The lookup of the global module path only sets an
  environment variable of the child process and catches its own exceptions; it is left
  out.\<close>

definition parse :: "world \<Rightarrow> string \<Rightarrow> parse_result" where
  "parse env file_path =
     (case ensure_typescript_installed env of
        Some e \<Rightarrow> parse_handler e
      | None \<Rightarrow>
          if node_script_path env = None \<or> node_script_path env = Some []
          then parse_handler (Exception ''Node.js script not initialized'')
          else
            (case run_node env (files env) file_path of
               Inl e \<Rightarrow> parse_handler e
             | Inr result \<Rightarrow>
                 if returncode result \<noteq> 0 then parse_failure (stderr result)
                 else
                   (case json_loads env (stdout result) of
                      Inl e \<Rightarrow> parse_handler e
                    | Inr d \<Rightarrow> d)))"

definition supported_extensions :: "string list" where
  "supported_extensions = [''.ts'', ''.tsx'', ''.js'', ''.jsx'', ''.test.ts'', ''.test.tsx'']"

text \<open>\<open>Path(p).suffix\<close> for a POSIX path: the last component that is neither empty
  nor \<open>.\<close>, from its last dot on, unless that dot is its first or its last character.\<close>

definition path_name :: "string \<Rightarrow> string" where
  "path_name p =
     (case rev (filter (\<lambda>part. part \<noteq> [] \<and> part \<noteq> ''.'') (split_on (CHR ''/'') p)) of
        [] \<Rightarrow> []
      | name # _ \<Rightarrow> name)"

definition path_suffix :: "string \<Rightarrow> string" where
  "path_suffix p =
     (let name = path_name p; i = rfind_char (CHR ''.'') name
      in if 0 < i \<and> i < int (length name) - 1 then drop (nat i) name else [])"

definition syntax_error_of :: "raw_error \<Rightarrow> SyntaxError" where
  "syntax_error_of error =
     \<lparr>err_line = re_line error, err_column = re_column error,
      message = re_message error, severity = re_severity error,
      error_code = (case re_errorCode error of None \<Rightarrow> ''UNKNOWN'' | Some c \<Rightarrow> c),
      source = re_source error\<rparr>"

definition ast_node_of :: "raw_node \<Rightarrow> ASTNode" where
  "ast_node_of node =
     ASTNode (rn_type node) (rn_start node) (rn_end node) (rn_line node) (rn_column node)
       (rn_raw node) []"

definition analyze_file :: "world \<Rightarrow> string \<Rightarrow> exn + ASTAnalysis" where
  "analyze_file env file_path =
     (if \<not> (\<exists>ext \<in> set supported_extensions. endswith file_path ext) then
        Inr \<lparr>is_valid = False,
             syntax_errors =
               [\<lparr>err_line = 1, err_column = 1,
                 message = ''Unsupported file type: '' @ path_suffix file_path,
                 severity = ''error'', error_code = ''UNSUPPORTED_TYPE'', source = ''ast''\<rparr>],
             ast_nodes = [], parse_time = elapsed env, file_type = ''unsupported''\<rparr>
      else
        (let parse_result = parse env file_path in
         if \<not> pr_success parse_result then
           Inr \<lparr>is_valid = False,
                syntax_errors =
                  [\<lparr>err_line = 1, err_column = 1,
                    message = (case pr_error parse_result of
                                 None \<Rightarrow> ''Unknown parse error'' | Some m \<Rightarrow> m),
                    severity = ''error'', error_code = ''PARSE_FAILED'', source = ''ast''\<rparr>],
                ast_nodes = [], parse_time = elapsed env,
                file_type = (case pr_fileType parse_result of
                               None \<Rightarrow> ''unknown'' | Some t \<Rightarrow> t)\<rparr>
         else
           (case pr_fileType parse_result of
              None \<Rightarrow> Inl (KeyError ''fileType'')
            | Some t \<Rightarrow>
                Inr \<lparr>is_valid = pr_isValid parse_result,
                     syntax_errors = map syntax_error_of (pr_syntaxErrors parse_result),
                     ast_nodes = map ast_node_of (pr_astNodes parse_result),
                     parse_time = elapsed env, file_type = t\<rparr>)))"

text \<open>\<open>analyze_with_content\<close>: the content is written to a temporary file whose name
  ends with the suffix of the path, the file is analysed, and the pattern diagnostics
  are added to the list. The temporary file exists for the duration of the call only.\<close>

definition analyze_with_content :: "world \<Rightarrow> string \<Rightarrow> string \<Rightarrow> exn + ASTAnalysis" where
  "analyze_with_content env file_path content =
     (case tmp_prefix env of
        Inl e \<Rightarrow> Inl e
      | Inr prefix \<Rightarrow>
          (let temp_path = prefix @ path_suffix file_path in
           case analyze_file (env\<lparr>files := (files env)(temp_path \<mapsto> content)\<rparr>) temp_path of
             Inl e \<Rightarrow> Inl e
           | Inr analysis \<Rightarrow>
               Inr (analysis\<lparr>syntax_errors :=
                      syntax_errors analysis @ detect_specific_errors analysis content\<rparr>)))"

section \<open>Per-file and batch processing (next\_gen\_auto\_fixer.py)\<close>

record NextGenFixResult =
  ng_success :: bool
  file_path :: string
  original_content :: string
  ng_fixed_content :: string
  total_fixes :: nat
  confidence_score :: rat
  processing_time :: rat
  fixes_by_engine :: "(string \<times> string list) list"
  ast_analysis :: "ASTAnalysis option"
  manual_review_needed :: bool
  ng_errors_remaining :: "string list"

record BatchProcessingResult =
  total_files :: nat
  files_processed :: nat
  files_fixed :: nat
  success_rate :: rat
  average_confidence :: rat
  average_processing_time :: rat
  total_fixes_applied :: nat
  manual_review_files :: "string list"
  detailed_results :: "NextGenFixResult list"

text \<open>The configuration and the counters of the fixer object.\<close>

record NextGenAutoFixer =
  confidence_threshold :: rat
  max_iterations :: int
  enable_ast_analysis :: bool
  enable_enhanced_fixes :: bool
  total_files_processed :: nat
  fixer_total_fixes_applied :: nat

text \<open>The local variables of \<open>process_file\<close> that its phases update.\<close>

record locals =
  current_content :: string
  all_fixes :: "string list"
  by_engine :: "(string \<times> string list) list"
  analysis_result :: "ASTAnalysis option"
  review_flag :: bool
  remaining_errors :: "string list"

text \<open>\<open>d[k] = v\<close> on a dictionary kept as a list of pairs in insertion order.\<close>

fun dict_set :: "(string \<times> 'v) list \<Rightarrow> string \<Rightarrow> 'v \<Rightarrow> (string \<times> 'v) list" where
  "dict_set [] k v = [(k, v)]"
| "dict_set ((k', v') # d) k v =
     (if k' = k then (k, v) # d else (k', v') # dict_set d k v)"

text \<open>Phase 1: analysis, generation and application of the syntax fixes, all inside
  one \<open>try\<close>; an exception is recorded among the remaining errors.\<close>

definition ast_phase :: "NextGenAutoFixer \<Rightarrow> world \<Rightarrow> string \<Rightarrow> locals \<Rightarrow> locals" where
  "ast_phase self env path st =
     (if \<not> enable_ast_analysis self then st
      else
        (case analyze_with_content env path (current_content st) of
           Inl e \<Rightarrow> st\<lparr>remaining_errors := remaining_errors st @ [''AST analysis error: '' @ str_exn e]\<rparr>
         | Inr analysis \<Rightarrow>
             (let st1 = st\<lparr>analysis_result := Some analysis\<rparr> in
              case generate_fixes analysis (current_content st) of
                Inl e \<Rightarrow> st1\<lparr>remaining_errors := remaining_errors st1 @ [''AST analysis error: '' @ str_exn e]\<rparr>
              | Inr ast_fixes \<Rightarrow>
                  if ast_fixes = [] then st1
                  else
                    (case apply_fixes (current_content st) ast_fixes of
                       Inl e \<Rightarrow>
                         st1\<lparr>remaining_errors := remaining_errors st1 @ [''AST analysis error: '' @ str_exn e]\<rparr>
                     | Inr ast_fix_result \<Rightarrow>
                         if success ast_fix_result then
                           (let ast_fix_descriptions =
                                  map description (fixes_applied ast_fix_result)
                            in st1\<lparr>current_content := fixed_content ast_fix_result,
                                    all_fixes := all_fixes st1 @ ast_fix_descriptions,
                                    by_engine := dict_set (by_engine st1) ''ast''
                                                   ast_fix_descriptions\<rparr>)
                         else st1))))"

text \<open>Phase 2: the pattern-based fixer runs on a copy of the current content in
  \<open>file_path + '.temp'\<close>, which is removed afterwards.\<close>

definition enhanced_phase ::
  "NextGenAutoFixer \<Rightarrow> world \<Rightarrow> string \<Rightarrow> locals \<Rightarrow> locals \<times> world" where
  "enhanced_phase self env path st =
     (if \<not> enable_enhanced_fixes self then (st, env)
      else
        (let temp_file_path = path @ ''.temp'' in
         case open_write env temp_file_path of
           Some e \<Rightarrow>
             (st\<lparr>remaining_errors := remaining_errors st @ [''Enhanced fixes error: '' @ str_exn e]\<rparr>, env)
         | None \<Rightarrow>
             (let enhanced_result =
                    enhanced_fix_file env temp_file_path (current_content st);
                  st1 =
                    (if efr_success enhanced_result \<and> changes_made enhanced_result \<noteq> [] then
                       (let st2 = st\<lparr>current_content := file_content enhanced_result,
                                      all_fixes := all_fixes st @ changes_made enhanced_result,
                                      by_engine := dict_set (by_engine st) ''enhanced''
                                                     (changes_made enhanced_result)\<rparr>
                        in if issues_found enhanced_result \<noteq> [] then
                             st2\<lparr>review_flag := True,
                                 remaining_errors := remaining_errors st2 @ issues_found enhanced_result\<rparr>
                           else st2)
                     else st)
              in (st1, env\<lparr>files := (files env)(temp_file_path := None)\<rparr>))))"

text \<open>One round of phase 3; the second component tells whether the loop goes on
  (\<open>False\<close> for \<open>break\<close>).\<close>

definition refine_step ::
  "NextGenAutoFixer \<Rightarrow> world \<Rightarrow> string \<Rightarrow> nat \<Rightarrow> locals \<Rightarrow> locals \<times> bool" where
  "refine_step self env path iteration st =
     (if \<not> enable_ast_analysis self then (st, True)
      else
        (case analyze_with_content env path (current_content st) of
           Inl e \<Rightarrow> (st, False)
         | Inr refined_analysis \<Rightarrow>
             (case generate_fixes refined_analysis (current_content st) of
                Inl e \<Rightarrow> (st, False)
              | Inr refined_fixes \<Rightarrow>
                  if refined_fixes = [] then (st, False)
                  else
                    (case apply_fixes (current_content st) refined_fixes of
                       Inl e \<Rightarrow> (st, False)
                     | Inr refined_result \<Rightarrow>
                         if success refined_result then
                           (let refined_descriptions =
                                  map description (fixes_applied refined_result);
                                key = ''ast_iteration_'' @ str_nat iteration;
                                before = (case map_of (by_engine st) key of
                                            None \<Rightarrow> [] | Some ds \<Rightarrow> ds)
                            in (st\<lparr>current_content := fixed_content refined_result,
                                    all_fixes := all_fixes st @ refined_descriptions,
                                    by_engine := dict_set (by_engine st) key
                                                   (before @ refined_descriptions)\<rparr>,
                                True))
                         else (st, True)))))"

text \<open>The loop \<open>for iteration in range(1, self.max_iterations)\<close>: the first argument
  counts the rounds that are left.\<close>

fun refine_loop ::
  "nat \<Rightarrow> NextGenAutoFixer \<Rightarrow> world \<Rightarrow> string \<Rightarrow> nat \<Rightarrow> locals \<Rightarrow> locals" where
  "refine_loop 0 self env path iteration st = st"
| "refine_loop (Suc n) self env path iteration st =
     (case refine_step self env path iteration st of
        (st1, go_on) \<Rightarrow>
          if go_on then refine_loop n self env path (iteration + 1) st1 else st1)"

definition refine_phase :: "NextGenAutoFixer \<Rightarrow> world \<Rightarrow> string \<Rightarrow> locals \<Rightarrow> locals" where
  "refine_phase self env path st =
     (if length (all_fixes st) > 0 \<and> max_iterations self > 1
      then refine_loop (nat (max_iterations self - 1)) self env path 1 st
      else st)"

text \<open>The result returned by the outer \<open>except\<close> clause.\<close>

definition critical_error :: "world \<Rightarrow> string \<Rightarrow> exn \<Rightarrow> NextGenFixResult" where
  "critical_error env path e =
     \<lparr>ng_success = False, file_path = path, original_content = [], ng_fixed_content = [],
      total_fixes = 0, confidence_score = 0, processing_time = elapsed env,
      fixes_by_engine = [], ast_analysis = None, manual_review_needed = False,
      ng_errors_remaining = [''Critical error: '' @ str_exn e]\<rparr>"

text \<open>\<open>process_file\<close> returns the result; the counters of the fixer and the files
  are returned with it.\<close>

definition process_file ::
  "NextGenAutoFixer \<Rightarrow> world \<Rightarrow> string \<Rightarrow> bool
     \<Rightarrow> NextGenFixResult \<times> NextGenAutoFixer \<times> world" where
  "process_file self env path dry_run =
     (case files env path of
        None \<Rightarrow>
          (critical_error env path
             (Exception (''[Errno 2] No such file or directory: '' @ path)), self, env)
      | Some original \<Rightarrow>
          (let st0 = \<lparr>current_content = original, all_fixes = [], by_engine = [],
                      analysis_result = None, review_flag = False, remaining_errors = []\<rparr>;
               st1 = ast_phase self env path st0;
               (st2, env2) = enhanced_phase self env path st1;
               st3 = refine_phase self env2 path st2;
               score = calculate_confidence original (current_content st3) (all_fixes st3)
                         (analysis_result st3) (review_flag st3) (remaining_errors st3);
               written =
                 (if \<not> dry_run \<and> current_content st3 \<noteq> original
                  then (case open_write env2 path of
                          Some e \<Rightarrow> Inl e
                        | None \<Rightarrow>
                            Inr (env2\<lparr>files := (files env2)(path \<mapsto> current_content st3)\<rparr>))
                  else Inr env2)
           in case written of
                Inl e \<Rightarrow> (critical_error env2 path e, self, env2)
              | Inr env3 \<Rightarrow>
                  (\<lparr>ng_success = (length (all_fixes st3) > 0),
                    file_path = path,
                    original_content = original,
                    ng_fixed_content = current_content st3,
                    total_fixes = length (all_fixes st3),
                    confidence_score = score,
                    processing_time = elapsed env3,
                    fixes_by_engine = by_engine st3,
                    ast_analysis = analysis_result st3,
                    manual_review_needed = review_flag st3,
                    ng_errors_remaining = remaining_errors st3\<rparr>,
                   self\<lparr>total_files_processed := total_files_processed self + 1,
                        fixer_total_fixes_applied :=
                          fixer_total_fixes_applied self + length (all_fixes st3)\<rparr>,
                   env3)))"

text \<open>The local variables of the loop of \<open>process_directory\<close>.\<close>

record batch_locals =
  results :: "NextGenFixResult list"
  review_files :: "string list"
  sum_fixes :: nat
  total_confidence :: rat
  fixed_count :: nat

definition batch_step :: "string \<Rightarrow> NextGenFixResult \<Rightarrow> batch_locals \<Rightarrow> batch_locals" where
  "batch_step path result b =
     (let b1 = b\<lparr>results := results b @ [result]\<rparr> in
      if ng_success result then
        (let b2 = b1\<lparr>fixed_count := fixed_count b1 + 1,
                      sum_fixes := sum_fixes b1 + total_fixes result,
                      total_confidence := total_confidence b1 + confidence_score result\<rparr>
         in if manual_review_needed result
            then b2\<lparr>review_files := review_files b2 @ [path]\<rparr>
            else b2)
      else b1)"

fun batch_loop ::
  "string list \<Rightarrow> bool \<Rightarrow> NextGenAutoFixer \<Rightarrow> world \<Rightarrow> batch_locals
     \<Rightarrow> batch_locals \<times> NextGenAutoFixer \<times> world" where
  "batch_loop [] dry_run self env b = (b, self, env)"
| "batch_loop (path # rest) dry_run self env b =
     (case process_file self env path dry_run of
        (result, self1, env1) \<Rightarrow>
          batch_loop rest dry_run self1 env1 (batch_step path result b))"

definition test_patterns :: "string list" where
  "test_patterns = [''**/*.test.tsx'', ''**/*.test.ts'', ''**/*.spec.tsx'', ''**/*.spec.ts'']"

definition process_directory ::
  "NextGenAutoFixer \<Rightarrow> world \<Rightarrow> string \<Rightarrow> bool
     \<Rightarrow> BatchProcessingResult \<times> NextGenAutoFixer \<times> world" where
  "process_directory self env directory dry_run =
     (let test_files = concat (map (glob env directory) test_patterns);
          b0 = \<lparr>results = [], review_files = [], sum_fixes = 0,
                 total_confidence = 0, fixed_count = 0\<rparr>
      in case batch_loop test_files dry_run self env b0 of
           (b, self1, env1) \<Rightarrow>
             (\<lparr>total_files = length test_files,
               files_processed = length (results b),
               files_fixed = fixed_count b,
               success_rate =
                 (if test_files \<noteq> [] then of_nat (fixed_count b) / of_nat (length test_files)
                  else 0),
               average_confidence =
                 (if test_files \<noteq> [] then total_confidence b / of_nat (length test_files)
                  else 0),
               average_processing_time =
                 (if test_files \<noteq> [] then batch_elapsed env1 / of_nat (length test_files)
                  else 0),
               total_fixes_applied = sum_fixes b,
               manual_review_files = review_files b,
               detailed_results = results b\<rparr>,
              self1, env1))"

section \<open>Statements of the specification, for comparison\<close>


text \<open>A text with its last \<open>k\<close> occurrences of a character deleted.\<close>

definition remove_from_end :: "nat \<Rightarrow> char \<Rightarrow> string \<Rightarrow> string" where
  "remove_from_end k c s = rev ((remove1 c ^^ k) (rev s))"



section \<open>Concrete inputs\<close>

text \<open>Edits and results used to evaluate the functions at explicit inputs.\<close>

definition structural_edit :: SyntaxFix where
  "structural_edit = \<lparr>line = 1, column = 1, old_text = ''x'',
     new_text = ''from structural engine'', description = ''Fix unmatched parentheses'',
     confidence = 9 / 10, fix_type = ''parentheses''\<rparr>"

definition type_edit :: SyntaxFix where
  "type_edit = \<lparr>line = 1, column = 1, old_text = ''x'',
     new_text = ''from type engine'', description = ''Add type assertion'',
     confidence = 8 / 10, fix_type = ''type_assertion''\<rparr>"

definition both_applied_result :: FixResult where
  "both_applied_result = \<lparr>success = True, fixed_content = ''from type engine'',
     fixes_applied = [structural_edit, type_edit],
     errors_remaining = [], result_confidence = 17 / 20\<rparr>"

definition stale_edit_5 :: SyntaxFix where
  "stale_edit_5 = \<lparr>line = 5, column = 1, old_text = ''gone'',
     new_text = ''gone;'', description = ''Add missing semicolon'',
     confidence = 7 / 10, fix_type = ''semicolon''\<rparr>"

definition stale_edit_9 :: SyntaxFix where
  "stale_edit_9 = \<lparr>line = 9, column = 1, old_text = ''far'',
     new_text = ''far)'', description = ''Fix unmatched parentheses'',
     confidence = 9 / 10, fix_type = ''parentheses''\<rparr>"

definition two_line_edit :: SyntaxFix where
  "two_line_edit = \<lparr>line = 1, column = 1, old_text = ''a'',
     new_text = ''b'' @ [newline] @ ''c'', description = ''Fix unmatched parentheses'',
     confidence = 9 / 10, fix_type = ''parentheses''\<rparr>"

definition scenario_a :: string where
  "scenario_a = ''setSystemTime(new Date(2023, 0, 1);''"

definition typescript_diagnostic :: SyntaxError where
  "typescript_diagnostic = \<lparr>err_line = 1, err_column = 35,
     message = ''Closing parenthesis expected.'',
     severity = ''error'', error_code = ''1005'', source = ''typescript''\<rparr>"

definition paren_lines :: "string list" where
  "paren_lines = [''  expect(foo(a);  '', ''render(a)) ;'']"

definition unmatched_open_diagnostic :: SyntaxError where
  "unmatched_open_diagnostic = \<lparr>err_line = 1, err_column = 3,
     message = ''Unmatched opening parenthesis in function call'',
     severity = ''error'', error_code = ''UNMATCHED_PAREN'', source = ''ast''\<rparr>"

definition unmatched_close_diagnostic :: SyntaxError where
  "unmatched_close_diagnostic = \<lparr>err_line = 2, err_column = 10,
     message = ''Unmatched closing parenthesis in function call'',
     severity = ''error'', error_code = ''UNMATCHED_PAREN'', source = ''ast''\<rparr>"

definition paren_content :: string where
  "paren_content = join_with [newline] paren_lines"

definition comment_lines :: "string list" where
  "comment_lines = [''expect(foo(a); // check'']"

definition comment_content :: string where
  "comment_content = join_with [newline] comment_lines"

definition example_engine :: MLContextEngine where
  "example_engine = \<lparr>context_patterns = (\<lambda>t. None), fix_history = [],
     predict_fix_type = (\<lambda>code. (''syntax_fix'', 1 / 2))\<rparr>"

definition example_context :: CodeContext where
  "example_context = \<lparr>ctx_file_type = ''.tsx'', ctx_framework = ''react'',
     ctx_patterns = [''render''], ctx_imports = [''react'', ''vitest''], ctx_functions = [],
     ctx_variables = [], ctx_test_type = ''component'', ctx_complexity_score = 1\<rparr>"

definition candidate_framework :: candidate where
  "candidate_framework = \<lparr>d_line = Some 1, d_column = Some 1, d_fix_type = Some ''syntax_fix'',
     d_old_text = Some ''render(x'', d_new_text = Some ''render(x)'',
     d_description = Some ''Close call'', d_framework = Some ''react'', d_test_type = None,
     d_patterns = None, d_required_imports = None\<rparr>"

definition candidate_imports :: candidate where
  "candidate_imports = \<lparr>d_line = Some 2, d_column = Some 1, d_fix_type = Some ''syntax_fix'',
     d_old_text = Some ''expect(x'', d_new_text = Some ''expect(x)'',
     d_description = Some ''Close assertion'', d_framework = None,
     d_test_type = Some ''component'', d_patterns = None,
     d_required_imports = Some [''react'', ''jest'']\<rparr>"

definition candidate_import_fix :: candidate where
  "candidate_import_fix = \<lparr>d_line = Some 3, d_column = Some 1, d_fix_type = Some ''import_fix'',
     d_old_text = Some ''import React'', d_new_text = Some ''import React from react'',
     d_description = Some ''Fix React import'', d_framework = Some ''react'',
     d_test_type = Some ''component'', d_patterns = Some [''render''],
     d_required_imports = Some [''react'']\<rparr>"

definition candidate_framework_later :: candidate where
  "candidate_framework_later = \<lparr>d_line = Some 4, d_column = Some 1,
     d_fix_type = Some ''syntax_fix'',
     d_old_text = Some ''screen.getByText(x'', d_new_text = Some ''screen.getByText(x)'',
     d_description = Some ''Close query'', d_framework = Some ''react'', d_test_type = None,
     d_patterns = None, d_required_imports = None\<rparr>"

definition ranked_framework :: ContextualFix where
  "ranked_framework = \<lparr>cf_line = 1, cf_column = 1, cf_fix_type = ''syntax_fix'',
     cf_old_text = ''render(x'', cf_new_text = ''render(x)'',
     cf_description = ''Close call'', cf_confidence = 1 / 2,
     context_match = 5404319552844595 / 18014398509481984,
     similar_patterns = [],
     reasoning = ''Detected react framework; Identified as component test''\<rparr>"

definition ranked_imports :: ContextualFix where
  "ranked_imports = \<lparr>cf_line = 2, cf_column = 1, cf_fix_type = ''syntax_fix'',
     cf_old_text = ''expect(x'', cf_new_text = ''expect(x)'',
     cf_description = ''Close assertion'', cf_confidence = 1 / 2,
     context_match = 1351079888211149 / 4503599627370496,
     similar_patterns = [],
     reasoning = ''Detected react framework; Identified as component test''\<rparr>"

definition ranked_import_fix :: ContextualFix where
  "ranked_import_fix = \<lparr>cf_line = 3, cf_column = 1, cf_fix_type = ''import_fix'',
     cf_old_text = ''import React'', cf_new_text = ''import React from react'',
     cf_description = ''Fix React import'',
     cf_confidence = 3152519739159347 / 9007199254740992, context_match = 1,
     similar_patterns = [],
     reasoning = ''Detected react framework; Identified as component test''\<rparr>"

definition ranked_framework_later :: ContextualFix where
  "ranked_framework_later = \<lparr>cf_line = 4, cf_column = 1, cf_fix_type = ''syntax_fix'',
     cf_old_text = ''screen.getByText(x'', cf_new_text = ''screen.getByText(x)'',
     cf_description = ''Close query'', cf_confidence = 1 / 2,
     context_match = 5404319552844595 / 18014398509481984,
     similar_patterns = [],
     reasoning = ''Detected react framework; Identified as component test''\<rparr>"

definition missing_member_diagnostic :: TypeDiagnostic where
  "missing_member_diagnostic = \<lparr>td_line = 12, td_column = 23,
     td_message = ''Property '' @ [apostrophe] @ ''getByText'' @ [apostrophe]
       @ '' does not exist on type Screen.'',
     td_severity = ''error'', td_code = 2339, td_category = ''error'',
     td_file = ''form.test.tsx''\<rparr>"

definition cast_query_line :: string where
  "cast_query_line = ''    const el = screen.getByText(label as any);''"

definition cast_mock_line :: string where
  "cast_mock_line = ''  api.getByText.mockReturnValue(data as any);''"

definition no_changes :: EnhancedFixResult where
  "no_changes = \<lparr>efr_success = False, changes_made = [], issues_found = [],
     file_content = [], efr_confidence = 1\<rparr>"

definition timeout_world :: world where
  "timeout_world = \<lparr>files = (\<lambda>p. None), ensure_typescript_installed = None,
     node_script_path = Some ''/tmp/parser.js'',
     run_node = (\<lambda>fs p. Inl (TimeoutExpired ''Command timed out after 30 seconds'')),
     json_loads = (\<lambda>s. Inl (Exception ''Expecting value'')),
     elapsed = 30, batch_elapsed = 30, tmp_prefix = Inr ''/tmp/tmpk3x9'',
     open_write = (\<lambda>p. None), enhanced_fix_file = (\<lambda>p c. no_changes),
     glob = (\<lambda>d pat. [])\<rparr>"

definition crash_world :: world where
  "crash_world = \<lparr>files = (\<lambda>p. None), ensure_typescript_installed = None,
     node_script_path = Some ''/tmp/parser.js'',
     run_node = (\<lambda>fs p. Inr \<lparr>returncode = 1, stdout = [],
                                stderr = ''Error: Cannot find module typescript''\<rparr>),
     json_loads = (\<lambda>s. Inl (Exception ''Expecting value'')),
     elapsed = 1 / 2, batch_elapsed = 1, tmp_prefix = Inr ''/tmp/tmpk3x9'',
     open_write = (\<lambda>p. None), enhanced_fix_file = (\<lambda>p c. no_changes),
     glob = (\<lambda>d pat. [])\<rparr>"

definition semicolon_added :: EnhancedFixResult where
  "semicolon_added = \<lparr>efr_success = True, changes_made = [''Added missing semicolon''],
     issues_found = [], file_content = ''let y = 2;'', efr_confidence = 1\<rparr>"

definition demo_world :: world where
  "demo_world = \<lparr>
     files = (\<lambda>p. if p = ''app/a.test.tsx'' then Some ''const x = 1;''
                  else if p = ''app/b.test.tsx'' then Some ''let y = 2''
                  else None),
     ensure_typescript_installed = None,
     node_script_path = Some ''/tmp/parser.js'',
     run_node = (\<lambda>fs p. Inr \<lparr>returncode = 1, stdout = [], stderr = ''no parser''\<rparr>),
     json_loads = (\<lambda>s. Inl (Exception ''Expecting value'')),
     elapsed = 1 / 2, batch_elapsed = 1, tmp_prefix = Inr ''/tmp/tmpk3x9'',
     open_write = (\<lambda>p. None),
     enhanced_fix_file = (\<lambda>p c. if c = ''let y = 2'' then semicolon_added else no_changes),
     glob = (\<lambda>d pat. if pat = ''**/*.test.tsx''
                       then [''app/a.test.tsx'', ''app/b.test.tsx''] else [])\<rparr>"

text \<open>A fixer with the analysis by the parser switched off.\<close>

definition demo_fixer :: NextGenAutoFixer where
  "demo_fixer = \<lparr>confidence_threshold = 8 / 10, max_iterations = 3,
     enable_ast_analysis = False, enable_enhanced_fixes = True,
     total_files_processed = 0, fixer_total_fixes_applied = 0\<rparr>"

definition parse_failed_diagnostic :: SyntaxError where
  "parse_failed_diagnostic = \<lparr>err_line = 1, err_column = 1, message = ''no parser'',
     severity = ''error'', error_code = ''PARSE_FAILED'', source = ''ast''\<rparr>"

definition demo_analysis :: ASTAnalysis where
  "demo_analysis = \<lparr>is_valid = False, syntax_errors = [parse_failed_diagnostic],
     ast_nodes = [], parse_time = 1 / 2, file_type = ''unknown''\<rparr>"

definition clean_result :: NextGenFixResult where
  "clean_result = \<lparr>ng_success = False, file_path = ''app/a.test.tsx'',
     original_content = ''const x = 1;'', ng_fixed_content = ''const x = 1;'',
     total_fixes = 0, confidence_score = 1, processing_time = 1 / 2,
     fixes_by_engine = [], ast_analysis = None,
     manual_review_needed = False, ng_errors_remaining = []\<rparr>"

definition fixed_result :: NextGenFixResult where
  "fixed_result = \<lparr>ng_success = True, file_path = ''app/b.test.tsx'',
     original_content = ''let y = 2'', ng_fixed_content = ''let y = 2;'',
     total_fixes = 1, confidence_score = 9 / 10, processing_time = 1 / 2,
     fixes_by_engine = [(''enhanced'', [''Added missing semicolon''])],
     ast_analysis = None,
     manual_review_needed = False, ng_errors_remaining = []\<rparr>"

definition demo_report :: BatchProcessingResult where
  "demo_report = \<lparr>total_files = 2, files_processed = 2, files_fixed = 1,
     success_rate = 1 / 2, average_confidence = 9 / 20, average_processing_time = 1 / 2,
     total_fixes_applied = 1, manual_review_files = [],
     detailed_results = [clean_result, fixed_result]\<rparr>"

definition two_line_result :: FixResult where
  "two_line_result = \<lparr>success = True,
     fixed_content = ''from structural engine'' @ [newline] @ ''y'',
     fixes_applied = [structural_edit], errors_remaining = [], result_confidence = 9 / 10\<rparr>"

definition semicolon_edit :: SyntaxFix where
  "semicolon_edit = \<lparr>line = 1, column = 10, old_text = ''let y = 2'',
     new_text = ''let y = 2;'', description = ''Add missing semicolon'',
     confidence = float64 (7 / 10), fix_type = ''semicolon''\<rparr>"

definition semicolon_result :: FixResult where
  "semicolon_result = \<lparr>success = True, fixed_content = ''let y = 2;'',
     fixes_applied = [semicolon_edit], errors_remaining = [], result_confidence = float64 (7 / 10)\<rparr>"

section \<open>Properties of the string and list helpers\<close>

lemma split_char_step:
  "split_str_acc [c] acc (x # xs) =
     (if x = c then rev acc # split_str_acc [c] [] xs else split_str_acc [c] (x # acc) xs)"
  by (simp add: startswith_def)

lemma split_char_nonempty: "split_str_acc [c] acc s \<noteq> []"
  by (induction s arbitrary: acc) (simp_all add: split_char_step del: split_str_acc.simps(2))

lemma split_char_no_sep:
  "l \<in> set (split_str_acc [c] acc s) \<Longrightarrow> c \<notin> set acc \<Longrightarrow> c \<notin> set l"
proof (induction s arbitrary: acc)
  case Nil
  then show ?case by simp
next
  case (Cons x xs)
  show ?case
  proof (cases "x = c")
    case True
    with Cons.prems have "l = rev acc \<or> l \<in> set (split_str_acc [c] [] xs)"
      by (simp add: split_char_step del: split_str_acc.simps(2))
    then show ?thesis
    proof
      assume "l = rev acc"
      with Cons.prems show ?thesis by simp
    next
      assume "l \<in> set (split_str_acc [c] [] xs)"
      from Cons.IH [OF this] show ?thesis by simp
    qed
  next
    case False
    with Cons.prems have "l \<in> set (split_str_acc [c] (x # acc) xs)"
      by (simp add: split_char_step del: split_str_acc.simps(2))
    from Cons.IH [OF this] False Cons.prems show ?thesis by simp
  qed
qed

lemma join_split_char: "join_with [c] (split_str_acc [c] acc s) = rev acc @ s"
proof (induction s arbitrary: acc)
  case Nil
  then show ?case by simp
next
  case (Cons x xs)
  show ?case
  proof (cases "x = c")
    case True
    obtain h t where ht: "split_str_acc [c] [] xs = h # t"
      using split_char_nonempty [of c "[]" xs] by (cases "split_str_acc [c] [] xs") auto
    from Cons.IH [of "[]"] ht True show ?thesis
      by (simp add: split_char_step del: split_str_acc.simps(2))
  next
    case False
    with Cons.IH [of "x # acc"] show ?thesis by (simp add: split_char_step del: split_str_acc.simps(2))
  qed
qed

lemma split_char_no_sep_single:
  "c \<notin> set l \<Longrightarrow> split_str_acc [c] acc l = [rev acc @ l]"
  by (induction l arbitrary: acc) (auto simp add: split_char_step simp del: split_str_acc.simps(2))

lemma split_char_append_no_sep:
  "c \<notin> set l \<Longrightarrow> split_str_acc [c] acc (l @ c # s) = (rev acc @ l) # split_str_acc [c] [] s"
  by (induction l arbitrary: acc) (auto simp add: split_char_step simp del: split_str_acc.simps(2))

lemma split_on_nonempty: "split_on c s \<noteq> []"
  by (simp add: split_on_def split_str_def split_char_nonempty)

lemma split_on_no_sep: "l \<in> set (split_on c s) \<Longrightarrow> c \<notin> set l"
  using split_char_no_sep [of l c "[]" s] by (simp add: split_on_def split_str_def)

lemma join_split_on: "join_with [c] (split_on c s) = s"
  by (simp add: split_on_def split_str_def join_split_char)

lemma split_on_join:
  "ls \<noteq> [] \<Longrightarrow> \<forall>l \<in> set ls. c \<notin> set l \<Longrightarrow> split_on c (join_with [c] ls) = ls"
proof (induction ls)
  case Nil
  then show ?case by simp
next
  case (Cons l ls)
  show ?case
  proof (cases ls)
    case Nil
    with Cons.prems show ?thesis
      by (simp add: split_on_def split_str_def split_char_no_sep_single)
  next
    case (Cons m ms)
    with Cons.IH Cons.prems have "split_on c (join_with [c] (m # ms)) = m # ms" by simp
    with Cons Cons.prems show ?thesis
      by (simp add: split_on_def split_str_def split_char_append_no_sep)
  qed
qed

lemma list_set_length: "list_set xs i v = Inr ys \<Longrightarrow> length ys = length xs"
  by (auto simp: list_set_def py_index_def split: if_splits)

lemma list_get_set_error: "list_get xs i = Inl e \<Longrightarrow> list_set xs i v = Inl e"
  by (auto simp: list_get_def list_set_def py_index_def split: if_splits)

lemma list_set_get_error: "list_set xs i v = Inl e \<Longrightarrow> list_get xs i = Inl e"
  by (auto simp: list_get_def list_set_def py_index_def split: if_splits)

lemma apply_loop_append:
  "apply_loop lines applied (pre @ rest) =
     (case apply_loop lines applied pre of
        Inl e \<Rightarrow> Inl e
      | Inr (ls, ap) \<Rightarrow> apply_loop ls ap rest)"
  by (induction pre arbitrary: lines applied) (auto split: sum.splits)

lemma apply_loop_result:
  "apply_loop lines applied fs = Inr (ls, ap) \<Longrightarrow>
     length ls = length lines \<and>
     ap = applied @ filter (\<lambda>f. line f \<le> int (length lines)) fs"
proof (induction fs arbitrary: lines applied)
  case Nil
  then show ?case by simp
next
  case (Cons f fs)
  show ?case
  proof (cases "line f \<le> int (length lines)")
    case False
    with Cons show ?thesis by simp
  next
    case True
    with Cons.prems obtain old lines' where
      l': "list_set lines (line f - 1) (new_text f) = Inr lines'"
      and rest: "apply_loop lines' (applied @ [f]) fs = Inr (ls, ap)"
      by (auto split: sum.splits)
    from l' have len: "length lines' = length lines" by (rule list_set_length)
    from Cons.IH [OF rest] len True show ?thesis by simp
  qed
qed

lemma apply_loop_stale:
  "int (length lines) < line s \<Longrightarrow>
   apply_loop lines applied (pre @ s # post) = apply_loop lines applied (pre @ post)"
proof (induction pre arbitrary: lines applied)
  case Nil
  then show ?case by simp
next
  case (Cons f pre)
  show ?case
  proof (cases "line f \<le> int (length lines)")
    case False
    with Cons show ?thesis by simp
  next
    case True
    show ?thesis
    proof (cases "list_set lines (line f - 1) (new_text f)")
      case (Inl e)
      then have "list_get lines (line f - 1) = Inl e" by (rule list_set_get_error)
      with True show ?thesis by simp
    next
      case (Inr lines')
      then have len: "length lines' = length lines" by (rule list_set_length)
      with Cons.prems have "int (length lines') < line s" by simp
      from Cons.IH [OF this] True Inr show ?thesis
        by (simp split: sum.splits)
    qed
  qed
qed

lemma apply_loop_no_newline:
  "apply_loop lines applied fs = Inr (ls, ap) \<Longrightarrow>
   \<forall>l \<in> set lines. c \<notin> set l \<Longrightarrow>
   \<forall>f \<in> set fs. c \<notin> set (new_text f) \<Longrightarrow>
   \<forall>l \<in> set ls. c \<notin> set l"
proof (induction fs arbitrary: lines applied)
  case Nil
  then show ?case by simp
next
  case (Cons f fs)
  show ?case
  proof (cases "line f \<le> int (length lines)")
    case False
    with Cons show ?thesis by simp
  next
    case True
    with Cons.prems(1) obtain lines' where
      l': "list_set lines (line f - 1) (new_text f) = Inr lines'"
      and rest: "apply_loop lines' (applied @ [f]) fs = Inr (ls, ap)"
      by (auto split: sum.splits)
    from l' obtain j where "lines' = lines[j := new_text f]"
      by (auto simp: list_set_def py_index_def split: if_splits)
    then have "set lines' \<subseteq> insert (new_text f) (set lines)"
      by (simp add: set_update_subset_insert)
    with Cons.prems(2,3) have "\<forall>l \<in> set lines'. c \<notin> set l" by auto
    from Cons.IH [OF rest this] Cons.prems(3) show ?thesis by simp
  qed
qed

lemma apply_loop_untouched:
  "apply_loop lines applied fs = Inr (ls, ap) \<Longrightarrow>
   i < length lines \<Longrightarrow>
   \<forall>h \<in> set fs. line h \<noteq> int i + 1 \<and> line h \<noteq> int i + 1 - int (length lines) \<Longrightarrow>
   ls ! i = lines ! i"
proof (induction fs arbitrary: lines applied)
  case Nil
  then show ?case by simp
next
  case (Cons f fs)
  show ?case
  proof (cases "line f \<le> int (length lines)")
    case False
    with Cons show ?thesis by simp
  next
    case True
    with Cons.prems(1) obtain lines' where
      l': "list_set lines (line f - 1) (new_text f) = Inr lines'"
      and rest: "apply_loop lines' (applied @ [f]) fs = Inr (ls, ap)"
      by (auto split: sum.splits)
    from l' have len: "length lines' = length lines" by (rule list_set_length)
    from Cons.prems(3) have nf: "line f \<noteq> int i + 1" "line f \<noteq> int i + 1 - int (length lines)"
      by simp_all
    from l' nf Cons.prems(2) have same: "lines' ! i = lines ! i"
      by (auto simp: list_set_def py_index_def split: if_splits)
    from Cons.prems(3) len
    have "\<forall>h \<in> set fs. line h \<noteq> int i + 1 \<and> line h \<noteq> int i + 1 - int (length lines')"
      by simp
    from Cons.IH [OF rest _ this] Cons.prems(2) len same show ?thesis by simp
  qed
qed

lemma apply_loop_total:
  "\<forall>f \<in> set fs. - int (length lines) < line f \<Longrightarrow>
   \<exists>ls ap. apply_loop lines applied fs = Inr (ls, ap)"
proof (induction fs arbitrary: lines applied)
  case Nil
  then show ?case by simp
next
  case (Cons f fs)
  show ?case
  proof (cases "line f \<le> int (length lines)")
    case False
    with Cons show ?thesis by simp
  next
    case True
    from Cons.prems have lo: "- int (length lines) < line f" by simp
    from True lo have "py_index (length lines) (line f - 1) \<noteq> None"
      by (simp add: py_index_def)
    then obtain j where j: "py_index (length lines) (line f - 1) = Some j"
      by blast
    define lines' where "lines' = lines[j := new_text f]"
    from j have g: "\<exists>old. list_get lines (line f - 1) = Inr old"
      by (simp add: list_get_def)
    from j have s: "list_set lines (line f - 1) (new_text f) = Inr lines'"
      by (simp add: list_set_def lines'_def)
    have len: "length lines' = length lines" by (simp add: lines'_def)
    with Cons.prems have "\<forall>h \<in> set fs. - int (length lines') < line h" by simp
    from Cons.IH [OF this, of "applied @ [f]"] True g s show ?thesis by auto
  qed
qed


section \<open>The patch applier\<close>

text \<open>
  C3, as the claim states it, fails. \<open>apply_fixes\<close> has no notion of origin
  priority and resolves no conflict: two edits of the same line are both applied, in
  the order of the list, and both are recorded in \<open>fixes_applied\<close>. With a
  structural edit and a type edit on line 1, the text that remains is the one of
  whichever edit comes later in the list, and nothing is discarded.
\<close>

theorem same_line_priority_counterexample:
  "apply_fixes ''x'' [structural_edit, type_edit] =
     Inr \<lparr>success = True, fixed_content = ''from type engine'',
          fixes_applied = [structural_edit, type_edit],
          errors_remaining = [], result_confidence = 17 / 20\<rparr>
   \<and> apply_fixes ''x'' [type_edit, structural_edit] =
     Inr \<lparr>success = True, fixed_content = ''from structural engine'',
          fixes_applied = [type_edit, structural_edit],
          errors_remaining = [], result_confidence = 17 / 20\<rparr>"
  by (simp add: apply_fixes_def structural_edit_def type_edit_def
        list_get_def list_set_def py_index_def newline_def split_on_def split_str_def startswith_def)

text \<open>
  C3 (amended): for every content and every fix list on which \<open>apply_fixes\<close>
  returns, the applied fixes are exactly the edits of the list whose line does not
  exceed the number of lines, in list order, so no edit is discarded for a conflict.
  When two edits \<open>f\<close> and \<open>g\<close> target the same line (numbered from 1, within the
  text), \<open>f\<close> before \<open>g\<close> in the list, and no edit after \<open>g\<close> writes that line (an
  edit with a line number \<open>k \<le> 0\<close> writes line \<open>k\<close> plus the number of lines),
  then both are recorded as applied and the line of the result holds the text of
  \<open>g\<close>, whatever the origin of the two edits.
\<close>

theorem same_line_edits_both_applied:
  assumes ret: "apply_fixes content fs = Inr r"
    and fs: "fs = pre @ f # mid @ g # post"
    and f1: "1 \<le> line f"
    and same: "line f = line g"
    and inr: "line g \<le> int (length (split_on newline content))"
    and later: "\<forall>h \<in> set post. line h \<noteq> line g
                 \<and> line h \<noteq> line g - int (length (split_on newline content))"
  shows "fixes_applied r = filter (\<lambda>h. line h \<le> int (length (split_on newline content))) fs
       \<and> f \<in> set (fixes_applied r) \<and> g \<in> set (fixes_applied r)
       \<and> (\<exists>ls. fixed_content r = join_with [newline] ls
              \<and> length ls = length (split_on newline content)
              \<and> ls ! nat (line g - 1) = new_text g)"
proof -
  let ?L = "split_on newline content"
  from fs have "fs \<noteq> []" by simp
  with ret obtain ls ap where
    loop: "apply_loop ?L [] fs = Inr (ls, ap)"
    and fc: "fixed_content r = join_with [newline] ls"
    and fa: "fixes_applied r = ap"
    by (auto simp: apply_fixes_def split: sum.splits)
  from apply_loop_result [OF loop]
  have len: "length ls = length ?L"
    and ap: "ap = filter (\<lambda>h. line h \<le> int (length ?L)) fs" by simp_all
  from ap fs same inr have mem: "f \<in> set ap" "g \<in> set ap" by auto
  from fs have "fs = (pre @ f # mid) @ (g # post)" by simp
  with loop have "(case apply_loop ?L [] (pre @ f # mid) of
                     Inl e \<Rightarrow> Inl e
                   | Inr (l1, a1) \<Rightarrow> apply_loop l1 a1 (g # post)) = Inr (ls, ap)"
    by (simp only: apply_loop_append)
  then obtain l1 a1 where
    p1: "apply_loop ?L [] (pre @ f # mid) = Inr (l1, a1)"
    and p2: "apply_loop l1 a1 (g # post) = Inr (ls, ap)"
    by (auto split: sum.splits)
  from apply_loop_result [OF p1] have len1: "length l1 = length ?L" by simp
  from f1 same have g1: "1 \<le> line g" by simp
  define i where "i = nat (line g - 1)"
  from g1 inr len1 have i: "i < length l1" "int i + 1 = line g" by (auto simp: i_def)
  with p2 inr len1 g1 have p3: "apply_loop (l1[i := new_text g]) (a1 @ [g]) post = Inr (ls, ap)"
    by (auto simp: list_get_def list_set_def py_index_def i_def split: if_splits sum.splits)
  from later i len1
  have "\<forall>h \<in> set post. line h \<noteq> int i + 1
          \<and> line h \<noteq> int i + 1 - int (length (l1[i := new_text g]))"
    by simp
  from apply_loop_untouched [OF p3 _ this] i have "ls ! i = new_text g" by simp
  with fc fa ap mem len show ?thesis by (auto simp: i_def)
qed

theorem same_line_edits_both_applied_witness:
  "apply_fixes ''x'' ([] @ structural_edit # [] @ type_edit # []) = Inr both_applied_result
   \<and> fixes_applied both_applied_result = [structural_edit, type_edit]
   \<and> (\<exists>ls. fixed_content both_applied_result = join_with [newline] ls
          \<and> length ls = 1 \<and> ls ! 0 = ''from type engine'')"
proof -
  have ret: "apply_fixes ''x'' ([] @ structural_edit # [] @ type_edit # []) = Inr both_applied_result"
    by (simp add: apply_fixes_def structural_edit_def type_edit_def both_applied_result_def
          list_get_def list_set_def py_index_def newline_def split_on_def split_str_def startswith_def)
  have len: "int (length (split_on newline ''x'')) = 1"
    by (simp add: newline_def split_on_def split_str_def startswith_def)
  have "fixes_applied both_applied_result =
          filter (\<lambda>h. line h \<le> int (length (split_on newline ''x'')))
            ([] @ structural_edit # [] @ type_edit # [])
      \<and> structural_edit \<in> set (fixes_applied both_applied_result)
      \<and> type_edit \<in> set (fixes_applied both_applied_result)
      \<and> (\<exists>ls. fixed_content both_applied_result = join_with [newline] ls
             \<and> length ls = length (split_on newline ''x'')
             \<and> ls ! nat (line type_edit - 1) = new_text type_edit)"
    by (rule same_line_edits_both_applied [OF ret refl])
       (simp_all add: structural_edit_def type_edit_def newline_def
          split_on_def split_str_def startswith_def)
  with ret show ?thesis
    by (simp add: structural_edit_def type_edit_def newline_def
          split_on_def split_str_def startswith_def)
qed

text \<open>
  C4, as the claim states it, fails in its last part: the result of \<open>apply_fixes\<close>
  has no field that counts or lists stale edits. On a one-line text, the fix list with
  one edit for line 5 and the fix list with two different edits for lines 5 and 9 give
  the same result as the list without them, so the result cannot tell how many edits
  were dropped.
\<close>

theorem stale_not_counted_counterexample:
  "apply_fixes ''x'' [structural_edit, stale_edit_5] = apply_fixes ''x'' [structural_edit]
   \<and> apply_fixes ''x'' [structural_edit, stale_edit_5, stale_edit_9] = apply_fixes ''x'' [structural_edit]
   \<and> apply_fixes ''x'' [structural_edit] =
       Inr \<lparr>success = True, fixed_content = ''from structural engine'',
            fixes_applied = [structural_edit],
            errors_remaining = [], result_confidence = 9 / 10\<rparr>"
  by (simp add: apply_fixes_def structural_edit_def stale_edit_5_def stale_edit_9_def
        list_get_def list_set_def py_index_def newline_def split_on_def split_str_def startswith_def)

text \<open>
  C4 (amended): for every content and every fix list, an edit whose line number
  exceeds the number of lines of the text is not applied: it never appears among the
  applied fixes, and the whole result (text, applied fixes, confidence, or the
  exception raised by another edit) is the one of the same list without that edit,
  as long as the list holds another edit; when it is the only edit, the text is
  returned unchanged with no fix applied and \<open>success\<close> false. No count of dropped
  edits is kept.
\<close>

theorem stale_edit_dropped:
  assumes stale: "int (length (split_on newline content)) < line s"
  shows "(pre @ post \<noteq> [] \<longrightarrow>
            apply_fixes content (pre @ s # post) = apply_fixes content (pre @ post))
       \<and> (pre @ post = [] \<longrightarrow>
            apply_fixes content (pre @ s # post) =
              Inr \<lparr>success = False, fixed_content = content, fixes_applied = [],
                   errors_remaining = [], result_confidence = 1\<rparr>)
       \<and> (\<forall>r. apply_fixes content (pre @ s # post) = Inr r \<longrightarrow> s \<notin> set (fixes_applied r))"
proof (intro conjI allI impI)
  assume "pre @ post \<noteq> []"
  then show "apply_fixes content (pre @ s # post) = apply_fixes content (pre @ post)"
    using apply_loop_stale [OF stale, of "[]" pre post]
    by (simp add: apply_fixes_def)
next
  assume "pre @ post = []"
  with stale show "apply_fixes content (pre @ s # post) =
      Inr \<lparr>success = False, fixed_content = content, fixes_applied = [],
           errors_remaining = [], result_confidence = 1\<rparr>"
    by (simp add: apply_fixes_def join_split_on)
next
  fix r
  assume ret: "apply_fixes content (pre @ s # post) = Inr r"
  then obtain ls ap where
    loop: "apply_loop (split_on newline content) [] (pre @ s # post) = Inr (ls, ap)"
    and fa: "fixes_applied r = ap"
    by (auto simp: apply_fixes_def split: sum.splits)
  from apply_loop_result [OF loop] stale fa
  show "s \<notin> set (fixes_applied r)" by auto
qed

theorem stale_edit_dropped_witness:
  "int (length (split_on newline ''x'')) < line stale_edit_5
   \<and> apply_fixes ''x'' ([structural_edit] @ stale_edit_5 # [stale_edit_9]) =
       apply_fixes ''x'' ([structural_edit] @ [stale_edit_9])
   \<and> apply_fixes ''x'' ([] @ stale_edit_5 # []) =
       Inr \<lparr>success = False, fixed_content = ''x'', fixes_applied = [],
            errors_remaining = [], result_confidence = 1\<rparr>"
proof -
  have stale: "int (length (split_on newline ''x'')) < line stale_edit_5"
    by (simp add: stale_edit_5_def newline_def split_on_def split_str_def startswith_def)
  from stale_edit_dropped [OF stale, of "[structural_edit]" "[stale_edit_9]"]
       stale_edit_dropped [OF stale, of "[]" "[]"] stale
  show ?thesis by simp
qed

section \<open>Rounding to a double\<close>

lemma bit_length_bounds:
  "0 < n \<Longrightarrow> 2 ^ (bit_length n - 1) \<le> n \<and> n < 2 ^ bit_length n"
proof (induction n rule: bit_length.induct)
  case (1 n)
  show ?case
  proof (cases "n div 2 = 0")
    case True
    with 1 have "n = Suc 0" by (auto simp: div_eq_0_iff)
    then show ?thesis
      by (simp add: bit_length.simps [of "Suc 0"] bit_length.simps [of 0])
  next
    case False
    with 1 have ih: "2 ^ (bit_length (n div 2) - 1) \<le> n div 2" "n div 2 < 2 ^ bit_length (n div 2)"
      by auto
    from False have pos: "0 < bit_length (n div 2)"
      by (simp add: bit_length.simps [of "n div 2"])
    have bl: "bit_length n = Suc (bit_length (n div 2))"
      using 1 by (simp add: bit_length.simps [of n])
    from pos obtain k where k: "bit_length (n div 2) = Suc k" by (cases "bit_length (n div 2)") auto
    from ih k have "2 ^ k \<le> n div 2" "n div 2 < 2 ^ Suc k" by auto
    then have "2 ^ Suc k \<le> n" "n < 2 ^ Suc (Suc k)" by auto
    then show ?thesis unfolding bl k by simp
  qed
qed

lemma pow2_pos: "0 < pow2 k"
  by (simp add: pow2_def)

lemma pow2_nat: "pow2 (int n) = 2 ^ n"
  by (simp add: pow2_def)

lemma pow2_neg_nat: "pow2 (- int n) = 1 / 2 ^ n"
  by (cases "n = 0") (simp_all add: pow2_def)

lemma floor_log2_bounds:
  assumes "0 < x"
  shows "pow2 (floor_log2 x) \<le> x \<and> x < pow2 (floor_log2 x + 1)"
proof (cases "1 \<le> x")
  case True
  let ?n = "nat \<lfloor>x\<rfloor>"
  from True have n: "0 < ?n" by simp
  from bit_length_bounds [OF n]
  have lo: "2 ^ (bit_length ?n - 1) \<le> ?n" and hi: "?n < 2 ^ bit_length ?n" by auto
  from n have blpos: "0 < bit_length ?n" using hi by (cases "bit_length ?n") auto
  have e: "floor_log2 x = int (bit_length ?n - 1)"
    using True blpos by (simp add: floor_log2_def)
  have e1: "floor_log2 x + 1 = int (bit_length ?n)"
    using e blpos by simp
  have "(2::rat) ^ (bit_length ?n - 1) \<le> of_nat ?n"
    using lo by (metis of_nat_le_iff of_nat_numeral of_nat_power)
  also have "\<dots> \<le> x" using True by (simp add: of_nat_nat)
  finally have a: "pow2 (floor_log2 x) \<le> x" unfolding e pow2_nat .
  have "x < of_int (\<lfloor>x\<rfloor> + 1)" by linarith
  also have "\<dots> = of_nat (?n + 1)" using True by simp
  also have "\<dots> \<le> (2::rat) ^ bit_length ?n"
    using hi by (metis Suc_eq_plus1 Suc_leI of_nat_le_iff of_nat_numeral of_nat_power)
  finally have b: "x < pow2 (floor_log2 x + 1)" unfolding e1 pow2_nat .
  from a b show ?thesis ..
next
  case False
  let ?m = "nat (\<lceil>1 / x\<rceil> - 1)"
  from False assms have gt: "1 < 1 / x" by simp
  then have c2: "2 \<le> \<lceil>1 / x\<rceil>" by linarith
  then have m: "0 < ?m" by simp
  from bit_length_bounds [OF m]
  have lo: "2 ^ (bit_length ?m - 1) \<le> ?m" and hi: "?m < 2 ^ bit_length ?m" by auto
  from m have blpos: "0 < bit_length ?m" using hi by (cases "bit_length ?m") auto
  have e: "floor_log2 x = - int (bit_length ?m)"
    using False by (simp add: floor_log2_def)
  have e1: "floor_log2 x + 1 = - int (bit_length ?m - 1)"
    using e blpos by simp
  have mnat: "(of_nat ?m :: rat) = of_int \<lceil>1 / x\<rceil> - 1"
    using c2 assms by (subst of_nat_nat) auto
  have mlt: "of_nat ?m < 1 / x"
    unfolding mnat by linarith
  have suc: "(of_nat (?m + 1) :: rat) = of_nat ?m + 1"
    by (simp only: of_nat_add of_nat_1)
  have mge: "1 / x \<le> of_nat (?m + 1)"
    unfolding suc mnat by linarith
  have "1 / x \<le> of_nat (?m + 1)" by (rule mge)
  also have "\<dots> \<le> (2::rat) ^ bit_length ?m"
    using hi by (metis Suc_eq_plus1 Suc_leI of_nat_le_iff of_nat_numeral of_nat_power)
  finally have "1 / x \<le> 2 ^ bit_length ?m" .
  with assms have a: "1 / 2 ^ bit_length ?m \<le> x"
    by (simp add: field_simps)
  have "(2::rat) ^ (bit_length ?m - 1) \<le> of_nat ?m"
    using lo by (metis of_nat_le_iff of_nat_numeral of_nat_power)
  also note mlt
  finally have "2 ^ (bit_length ?m - 1) < 1 / x" .
  with assms have b: "x < 1 / 2 ^ (bit_length ?m - 1)"
    by (simp add: field_simps)
  have a': "pow2 (floor_log2 x) \<le> x" unfolding e pow2_neg_nat by (rule a)
  have b': "x < pow2 (floor_log2 x + 1)" unfolding e1 pow2_neg_nat by (rule b)
  from a' b' show ?thesis ..
qed

lemma round_half_even_near: "\<bar>of_int (round_half_even m) - m\<bar> \<le> 1 / 2"
proof -
  have a: "of_int \<lfloor>m\<rfloor> \<le> m" and b: "m < of_int \<lfloor>m\<rfloor> + 1" by linarith+
  show ?thesis
    unfolding round_half_even_def Let_def using a b by (auto simp: abs_le_iff)
qed

lemma round_half_even_mono: "a \<le> b \<Longrightarrow> round_half_even a \<le> round_half_even b"
proof -
  assume ab: "a \<le> b"
  have fa: "of_int \<lfloor>a\<rfloor> \<le> a" "a < of_int \<lfloor>a\<rfloor> + 1"
    and fb: "of_int \<lfloor>b\<rfloor> \<le> b" "b < of_int \<lfloor>b\<rfloor> + 1" by linarith+
  from ab have fl: "\<lfloor>a\<rfloor> \<le> \<lfloor>b\<rfloor>" by (rule floor_mono)
  show ?thesis
  proof (cases "\<lfloor>a\<rfloor> = \<lfloor>b\<rfloor>")
    case True
    with ab show ?thesis
      unfolding round_half_even_def Let_def by auto
  next
    case False
    with fl have "\<lfloor>a\<rfloor> + 1 \<le> \<lfloor>b\<rfloor>" by simp
    moreover have "round_half_even a \<le> \<lfloor>a\<rfloor> + 1"
      unfolding round_half_even_def Let_def by auto
    moreover have "\<lfloor>b\<rfloor> \<le> round_half_even b"
      unfolding round_half_even_def Let_def by auto
    ultimately show ?thesis by linarith
  qed
qed

lemma round_half_even_int: "round_half_even (of_int n) = n"
  by (simp add: round_half_even_def Let_def)

text \<open>The result of \<open>float64\<close> is within half a unit in the last place of its argument, and
  its significand has at most 53 bits.\<close>

lemma float64_error:
  assumes "x \<noteq> 0"
  shows "\<bar>float64 x - x\<bar> \<le> pow2 (max (floor_log2 \<bar>x\<bar> - 52) (- 1074)) / 2"
proof -
  let ?e = "max (floor_log2 \<bar>x\<bar> - 52) (- 1074)"
  let ?n = "round_half_even (\<bar>x\<bar> / pow2 ?e)"
  have p: "0 < pow2 ?e" by (rule pow2_pos)
  have f: "float64 x = sgn x * of_int ?n * pow2 ?e"
    using assms by (simp add: float64_def Let_def)
  have x: "x = sgn x * (\<bar>x\<bar> / pow2 ?e) * pow2 ?e"
    using p by (simp add: sgn_mult_abs)
  have "float64 x - x = sgn x * (of_int ?n - \<bar>x\<bar> / pow2 ?e) * pow2 ?e"
    by (subst (2) x, subst f) (simp only: algebra_simps)
  then have "\<bar>float64 x - x\<bar> = \<bar>of_int ?n - \<bar>x\<bar> / pow2 ?e\<bar> * pow2 ?e"
    using assms p by (simp add: abs_mult abs_sgn_eq)
  also have "\<dots> \<le> (1 / 2) * pow2 ?e"
    using round_half_even_near [of "\<bar>x\<bar> / pow2 ?e"] p
    by (intro mult_right_mono) auto
  finally show ?thesis by simp
qed

lemma pow2_power_int: "pow2 k = power_int 2 k"
  by (simp add: pow2_def power_int_def inverse_eq_divide power_one_over)

lemma pow2_add: "pow2 (a + b) = pow2 a * pow2 b"
  by (simp add: pow2_power_int power_int_add)

lemma pow2_mono: "a \<le> b \<Longrightarrow> pow2 a \<le> pow2 b"
  by (simp add: pow2_power_int power_int_increasing)

lemma float64_significand:
  assumes "x \<noteq> 0"
  shows "\<exists>n. float64 x = sgn x * of_int n * pow2 (max (floor_log2 \<bar>x\<bar> - 52) (- 1074))
           \<and> 0 \<le> n \<and> n \<le> 2 ^ 53"
proof -
  let ?e = "max (floor_log2 \<bar>x\<bar> - 52) (- 1074)"
  let ?n = "round_half_even (\<bar>x\<bar> / pow2 ?e)"
  have p: "0 < pow2 ?e" by (rule pow2_pos)
  have f: "float64 x = sgn x * of_int ?n * pow2 ?e"
    using assms by (simp add: float64_def Let_def)
  from assms have ax: "0 < \<bar>x\<bar>" by simp
  from floor_log2_bounds [OF ax] have "\<bar>x\<bar> < pow2 (floor_log2 \<bar>x\<bar> + 1)" by simp
  also have "\<dots> \<le> pow2 (?e + 53)" by (rule pow2_mono) simp
  also have "\<dots> = pow2 ?e * 2 ^ 53"
    unfolding pow2_add by (simp add: pow2_def)
  finally have "\<bar>x\<bar> / pow2 ?e \<le> of_int (2 ^ 53)"
    using p by (simp add: field_simps)
  from round_half_even_mono [OF this] have hi: "?n \<le> 2 ^ 53"
    unfolding round_half_even_int .
  have "(of_int 0 :: rat) \<le> \<bar>x\<bar> / pow2 ?e" using p by simp
  from round_half_even_mono [OF this] have lo: "0 \<le> ?n"
    unfolding round_half_even_int .
  from f lo hi show ?thesis by blast
qed

text \<open>Some values: \<open>0.1\<close>, the sum \<open>0.1 + 0.2 = 0.30000000000000004\<close>, and a third.\<close>

lemma float64_tenth: "float64 (1 / 10) = 3602879701896397 / 36028797018963968"
  by code_simp

lemma float64_tenth_plus_fifth:
  "float64 (float64 (1 / 10) + float64 (2 / 10)) = 1351079888211149 / 4503599627370496"
  by code_simp

lemma float64_third: "float64 (1 / 3) = 6004799503160661 / 18014398509481984"
  by code_simp

lemma float64_minus_third:
  "float64 (- (1 / 3)) = - (6004799503160661 / 18014398509481984)"
  by code_simp

lemma float64_half: "float64 (1 / 2) = 1 / 2"
  by code_simp

section \<open>The syntax fix generator\<close>

subsection \<open>Removing and counting parentheses\<close>

lemma rfind_char_range: "- 1 \<le> rfind_char c s"
  by (induction s) (auto simp: Let_def)

lemma rfind_char_absent: "rfind_char c s = -1 \<longleftrightarrow> c \<notin> set s"
proof (induction s)
  case Nil
  then show ?case by simp
next
  case (Cons x xs)
  have "rfind_char c xs + 1 \<noteq> -1"
    using rfind_char_range [of c xs] by simp
  with Cons show ?case by (auto simp: Let_def)
qed

lemma remove_last_paren_remove1:
  "remove_last_paren s = rev (remove1 (CHR '')'') (rev s))"
proof -
  have key: "rfind_char c s \<noteq> -1 \<Longrightarrow>
      take (nat (rfind_char c s)) s @ drop (nat (rfind_char c s) + 1) s
        = rev (remove1 c (rev s))" for c
  proof (induction s)
    case Nil
    then show ?case by simp
  next
    case (Cons x xs)
    show ?case
    proof (cases "c \<in> set xs")
      case True
      then have r: "rfind_char c xs \<noteq> -1" by (simp add: rfind_char_absent)
      with rfind_char_range [of c xs] have r0: "0 \<le> rfind_char c xs" by simp
      then have n: "nat (rfind_char c xs + 1) = Suc (nat (rfind_char c xs))" by simp
      from Cons.IH [OF r] r True n show ?thesis
        by (simp add: Let_def remove1_append)
    next
      case False
      then have r: "rfind_char c xs = -1" by (simp add: rfind_char_absent)
      with Cons.prems have "x = c" by (simp add: Let_def split: if_splits)
      with r False show ?thesis by (simp add: Let_def remove1_append)
    qed
  qed
  show ?thesis
  proof (cases "rfind_char (CHR '')'') s = -1")
    case True
    then have "CHR '')'' \<notin> set (rev s)" by (simp add: rfind_char_absent)
    then have "remove1 (CHR '')'') (rev s) = rev s" by (rule remove1_idem)
    with True show ?thesis by (simp add: remove_last_paren_def)
  next
    case False
    with key [OF False] show ?thesis by (simp add: remove_last_paren_def Let_def)
  qed
qed

lemma remove_last_paren_funpow:
  "(remove_last_paren ^^ k) s = remove_from_end k (CHR '')'') s"
  by (induction k) (simp_all add: remove_from_end_def remove_last_paren_remove1)

lemma count_char_rev: "count_char c (rev s) = count_char c s"
  by (simp add: count_char_def flip: rev_filter)

lemma count_char_append: "count_char c (s @ t) = count_char c s + count_char c t"
  by (simp add: count_char_def)

lemma count_char_remove1_same: "count_char c (remove1 c s) = count_char c s - 1"
  by (induction s) (auto simp: count_char_def)

lemma count_char_remove1_other: "d \<noteq> c \<Longrightarrow> count_char d (remove1 c s) = count_char d s"
  by (induction s) (auto simp: count_char_def)

lemma count_char_remove_from_end_same:
  "count_char c (remove_from_end k c s) = count_char c s - k"
proof -
  have "count_char c ((remove1 c ^^ k) t) = count_char c t - k" for t
    by (induction k) (simp_all add: count_char_remove1_same)
  then show ?thesis by (simp add: remove_from_end_def count_char_rev)
qed

lemma count_char_remove_from_end_other:
  assumes "d \<noteq> c"
  shows "count_char d (remove_from_end k c s) = count_char d s"
proof -
  have "count_char d ((remove1 c ^^ k) t) = count_char d t" for t
    using assms by (induction k) (simp_all add: count_char_remove1_other)
  then show ?thesis by (simp add: remove_from_end_def count_char_rev)
qed

lemma count_char_rstrip:
  assumes "\<not> is_space c"
  shows "count_char c (rstrip s) = count_char c s"
proof -
  have "count_char c (dropWhile is_space t) = count_char c t" for t
  proof -
    have "t = takeWhile is_space t @ dropWhile is_space t" by simp
    then have "count_char c t =
        count_char c (takeWhile is_space t) + count_char c (dropWhile is_space t)"
      by (metis count_char_append)
    moreover have "filter (\<lambda>x. x = c) (takeWhile is_space t) = []"
      using assms by (auto simp: filter_empty_conv dest: set_takeWhileD)
    ultimately show ?thesis by (simp add: count_char_def)
  qed
  from this [of "rev s"] show ?thesis by (simp add: rstrip_def count_char_rev)
qed

lemma paren_not_space: "\<not> is_space (CHR ''('')" "\<not> is_space (CHR '')'')"
  by (simp_all add: is_space_def)

lemma endswith_semicolon_butlast:
  "endswith s '';'' \<Longrightarrow> s = butlast s @ '';''"
  by (cases s rule: rev_cases) (auto simp: endswith_def)

lemma count_char_replicate: "count_char c (replicate k d) = (if d = c then k else 0)"
  by (induction k) (auto simp: count_char_def)

subsection \<open>Unmatched parentheses\<close>

lemma literal_product_09_08:
  "float64 (float64 (9 / 10) * float64 (8 / 10)) = 6485183463413515 / 9007199254740992"
  by code_simp

lemma literal_072: "float64 (72 / 100) = 3242591731706757 / 4503599627370496"
  by code_simp

lemma literal_09: "float64 (9 / 10) = 8106479329266893 / 9007199254740992"
  by code_simp

lemma removal_confidence:
  "float64 (pi_confidence UNMATCHED_PAREN * float64 (8 / 10)) = 6485183463413515 / 9007199254740992"
  unfolding UNMATCHED_PAREN_def pattern_info.simps by (rule literal_product_09_08)

lemma unmatched_paren_handler:
  assumes "error_code error = ''UNMATCHED_PAREN''"
    and "err_line error \<le> int (length lines)"
    and "list_get lines (err_line error - 1) = Inr txt"
  shows "generate_fix_for_error error lines content =
           Inr (fix_unmatched_parentheses error txt (err_line error))"
  using assms by (simp add: generate_fix_for_error_def Let_def)

text \<open>
  C8, as the claim states it, fails in two respects. The confidence of the edit that
  removes excess closing parentheses is the floating-point product \<open>0.9 * 0.8\<close>, which
  is \<open>0.7200000000000001\<close>, the double next above \<open>0.72\<close>, and not \<open>0.72\<close>. And the
  missing closing parentheses are put in front of a \<open>;\<close> only when the line, without
  its trailing white space, ends in that \<open>;\<close>: on a line whose \<open>;\<close> is followed by a
  comment they are added at the end, after the comment.
\<close>

theorem removal_confidence_counterexample:
  "(\<exists>fix. generate_fix_for_error unmatched_close_diagnostic paren_lines paren_content
             = Inr (Some fix)
        \<and> new_text fix = ''render(a) ;''
        \<and> confidence fix = 6485183463413515 / 9007199254740992)
   \<and> float64 (72 / 100) = 3242591731706757 / 4503599627370496
   \<and> float64 (72 / 100) < 6485183463413515 / 9007199254740992
   \<and> (\<exists>fix. generate_fix_for_error unmatched_open_diagnostic comment_lines comment_content
             = Inr (Some fix)
        \<and> old_text fix = ''expect(foo(a); // check''
        \<and> new_text fix = ''expect(foo(a); // check)'')"
proof -
  have g2: "generate_fix_for_error unmatched_close_diagnostic paren_lines paren_content =
      Inr (fix_unmatched_parentheses unmatched_close_diagnostic ''render(a)) ;'' 2)"
    by (simp add: generate_fix_for_error_def Let_def unmatched_close_diagnostic_def
          paren_lines_def list_get_def py_index_def)
  have e2: "rstrip (remove_from_end 1 (CHR '')'') ''render(a)) ;'') = ''render(a) ;''"
    by (simp add: rstrip_def is_space_def remove_from_end_def)
  have f2: "\<exists>fix. fix_unmatched_parentheses unmatched_close_diagnostic ''render(a)) ;'' 2 = Some fix
        \<and> new_text fix = ''render(a) ;''
        \<and> confidence fix = 6485183463413515 / 9007199254740992"
    using e2 removal_confidence
    by (simp add: fix_unmatched_parentheses_def Let_def count_char_def remove_last_paren_funpow)
  have g1: "generate_fix_for_error unmatched_open_diagnostic comment_lines comment_content =
      Inr (fix_unmatched_parentheses unmatched_open_diagnostic ''expect(foo(a); // check'' 1)"
    by (simp add: generate_fix_for_error_def Let_def unmatched_open_diagnostic_def
          comment_lines_def list_get_def py_index_def)
  have f1: "\<exists>fix. fix_unmatched_parentheses unmatched_open_diagnostic ''expect(foo(a); // check'' 1
          = Some fix
        \<and> old_text fix = ''expect(foo(a); // check''
        \<and> new_text fix = ''expect(foo(a); // check)''"
    by (simp add: fix_unmatched_parentheses_def Let_def count_char_def rstrip_def is_space_def
          endswith_def)
  have lt: "float64 (72 / 100) < 6485183463413515 / 9007199254740992"
    unfolding literal_072 by simp
  from g2 f2 g1 f1 lt literal_072 show ?thesis by auto
qed

text \<open>
  C8 (amended): for a diagnostic with code \<open>UNMATCHED_PAREN\<close> on a line of the text
  (the line the generator reads for it is \<open>txt\<close>): if the line has more opening than
  closing parentheses, the generator returns an edit whose confidence is the double
  \<open>0.9\<close> and whose new text is the line without its trailing white space, with the
  missing closing parentheses inserted before its final \<open>;\<close> when it ends in one, and
  added at its end otherwise; if it has more closing than opening parentheses, it
  returns an edit whose confidence is the floating-point product of \<open>0.9\<close> and \<open>0.8\<close>,
  the double \<open>6485183463413515 / 2^53 = 0.7200000000000001\<close>, greater than the double
  \<open>0.72\<close>, and whose new text is the line with its last excess closing parentheses
  deleted and its trailing white space removed. In both cases the new text has as many
  opening as closing parentheses.
\<close>

theorem unmatched_paren_edit:
  assumes code: "error_code error = ''UNMATCHED_PAREN''"
    and inr: "err_line error \<le> int (length lines)"
    and get: "list_get lines (err_line error - 1) = Inr txt"
  shows "(count_char (CHR '')'') txt < count_char (CHR ''('') txt \<longrightarrow>
           (\<exists>fix. generate_fix_for_error error lines content = Inr (Some fix)
              \<and> line fix = err_line error
              \<and> confidence fix = float64 (9 / 10)
              \<and> new_text fix =
                  (if endswith (rstrip txt) '';''
                   then butlast (rstrip txt)
                        @ replicate (count_char (CHR ''('') txt - count_char (CHR '')'') txt) (CHR '')'')
                        @ '';''
                   else rstrip txt
                        @ replicate (count_char (CHR ''('') txt - count_char (CHR '')'') txt) (CHR '')''))
              \<and> count_char (CHR ''('') (new_text fix) = count_char (CHR '')'') (new_text fix)))
       \<and> (count_char (CHR ''('') txt < count_char (CHR '')'') txt \<longrightarrow>
           (\<exists>fix. generate_fix_for_error error lines content = Inr (Some fix)
              \<and> line fix = err_line error
              \<and> confidence fix = float64 (float64 (9 / 10) * float64 (8 / 10))
              \<and> confidence fix = 6485183463413515 / 9007199254740992
              \<and> float64 (72 / 100) < confidence fix
              \<and> new_text fix =
                  rstrip (remove_from_end
                    (count_char (CHR '')'') txt - count_char (CHR ''('') txt) (CHR '')'') txt)
              \<and> count_char (CHR ''('') (new_text fix) = count_char (CHR '')'') (new_text fix)))"
proof (intro conjI impI)
  let ?o = "count_char (CHR ''('') txt" and ?c = "count_char (CHR '')'') txt"
  have gen: "generate_fix_for_error error lines content =
               Inr (fix_unmatched_parentheses error txt (err_line error))"
    using code inr get by (rule unmatched_paren_handler)
  {
    assume lt: "?c < ?o"
    have ro: "count_char (CHR ''('') (rstrip txt) = ?o"
      and rc: "count_char (CHR '')'') (rstrip txt) = ?c"
      by (simp_all add: count_char_rstrip paren_not_space)
    have bal: "count_char (CHR ''('') (rstrip txt @ replicate (?o - ?c) (CHR '')''))
             = count_char (CHR '')'') (rstrip txt @ replicate (?o - ?c) (CHR '')''))"
      using lt ro rc by (simp add: count_char_append count_char_replicate)
    have bal2: "count_char (CHR ''('') (butlast (rstrip txt) @ replicate (?o - ?c) (CHR '')'') @ '';'')
             = count_char (CHR '')'') (butlast (rstrip txt) @ replicate (?o - ?c) (CHR '')'') @ '';'')"
      if e: "endswith (rstrip txt) '';''"
    proof -
      from endswith_semicolon_butlast [OF e]
      obtain b where b: "rstrip txt = b @ '';''" by blast
      then have bl: "butlast (rstrip txt) = b" by simp
      from ro b have "count_char (CHR ''('') b = ?o"
        by (simp add: count_char_def)
      moreover from rc b have "count_char (CHR '')'') b = ?c"
        by (simp add: count_char_def)
      ultimately show ?thesis
        using lt unfolding bl by (simp add: count_char_def)
    qed
    from lt bal bal2 gen
    show "\<exists>fix. generate_fix_for_error error lines content = Inr (Some fix)
              \<and> line fix = err_line error
              \<and> confidence fix = float64 (9 / 10)
              \<and> new_text fix =
                  (if endswith (rstrip txt) '';''
                   then butlast (rstrip txt) @ replicate (?o - ?c) (CHR '')'') @ '';''
                   else rstrip txt @ replicate (?o - ?c) (CHR '')''))
              \<and> count_char (CHR ''('') (new_text fix) = count_char (CHR '')'') (new_text fix)"
      by (simp add: fix_unmatched_parentheses_def Let_def UNMATCHED_PAREN_def)
  }
  {
    assume lt: "?o < ?c"
    let ?n = "rstrip (remove_from_end (?c - ?o) (CHR '')'') txt)"
    have "count_char (CHR ''('') ?n = ?o"
      by (simp add: count_char_rstrip paren_not_space count_char_remove_from_end_other)
    moreover have "count_char (CHR '')'') ?n = ?c - (?c - ?o)"
      by (simp add: count_char_rstrip paren_not_space count_char_remove_from_end_same)
    ultimately have bal: "count_char (CHR ''('') ?n = count_char (CHR '')'') ?n"
      using lt by simp
    have cv: "float64 (float64 (9 / 10) * float64 (8 / 10)) = 6485183463413515 / 9007199254740992"
      by (rule literal_product_09_08)
    have below: "float64 (72 / 100) < 6485183463413515 / 9007199254740992"
      unfolding literal_072 by simp
    from lt bal gen cv below removal_confidence
    show "\<exists>fix. generate_fix_for_error error lines content = Inr (Some fix)
              \<and> line fix = err_line error
              \<and> confidence fix = float64 (float64 (9 / 10) * float64 (8 / 10))
              \<and> confidence fix = 6485183463413515 / 9007199254740992
              \<and> float64 (72 / 100) < confidence fix
              \<and> new_text fix = ?n
              \<and> count_char (CHR ''('') (new_text fix) = count_char (CHR '')'') (new_text fix)"
      by (simp add: fix_unmatched_parentheses_def Let_def remove_last_paren_funpow)
  }
qed

theorem unmatched_paren_edit_witness:
  "error_code unmatched_open_diagnostic = ''UNMATCHED_PAREN''
   \<and> err_line unmatched_open_diagnostic \<le> int (length paren_lines)
   \<and> list_get paren_lines (err_line unmatched_open_diagnostic - 1) = Inr ''  expect(foo(a);  ''
   \<and> (\<exists>fix. generate_fix_for_error unmatched_open_diagnostic paren_lines paren_content = Inr (Some fix)
          \<and> confidence fix = 8106479329266893 / 9007199254740992
          \<and> new_text fix = ''  expect(foo(a));'')
   \<and> list_get paren_lines (err_line unmatched_close_diagnostic - 1) = Inr ''render(a)) ;''
   \<and> (\<exists>fix. generate_fix_for_error unmatched_close_diagnostic paren_lines paren_content = Inr (Some fix)
          \<and> confidence fix = 6485183463413515 / 9007199254740992
          \<and> new_text fix = ''render(a) ;'')"
proof -
  have c1: "error_code unmatched_open_diagnostic = ''UNMATCHED_PAREN''"
    and c2: "error_code unmatched_close_diagnostic = ''UNMATCHED_PAREN''"
    by (simp_all add: unmatched_open_diagnostic_def unmatched_close_diagnostic_def)
  have r1: "err_line unmatched_open_diagnostic \<le> int (length paren_lines)"
    and r2: "err_line unmatched_close_diagnostic \<le> int (length paren_lines)"
    by (simp_all add: unmatched_open_diagnostic_def unmatched_close_diagnostic_def paren_lines_def)
  have g1: "list_get paren_lines (err_line unmatched_open_diagnostic - 1) = Inr ''  expect(foo(a);  ''"
    and g2: "list_get paren_lines (err_line unmatched_close_diagnostic - 1) = Inr ''render(a)) ;''"
    by (simp_all add: unmatched_open_diagnostic_def unmatched_close_diagnostic_def paren_lines_def
          list_get_def py_index_def)
  have e1: "rstrip ''  expect(foo(a);  '' = ''  expect(foo(a);''"
    by (simp add: rstrip_def is_space_def)
  have e2: "rstrip (remove_from_end 1 (CHR '')'') ''render(a)) ;'') = ''render(a) ;''"
    by (simp add: rstrip_def is_space_def remove_from_end_def)
  have n1: "count_char (CHR '')'') ''  expect(foo(a);  '' < count_char (CHR ''('') ''  expect(foo(a);  ''"
    and d1: "count_char (CHR ''('') ''  expect(foo(a);  '' - count_char (CHR '')'') ''  expect(foo(a);  '' = 1"
    and s1: "endswith ''  expect(foo(a);'' '';''"
    by (simp_all add: count_char_def endswith_def)
  have n2: "count_char (CHR ''('') ''render(a)) ;'' < count_char (CHR '')'') ''render(a)) ;''"
    and d2: "count_char (CHR '')'') ''render(a)) ;'' - count_char (CHR ''('') ''render(a)) ;'' = 1"
    by (simp_all add: count_char_def)
  from unmatched_paren_edit [OF c1 r1 g1, of paren_content] n1
  obtain fix1 where
    "generate_fix_for_error unmatched_open_diagnostic paren_lines paren_content = Inr (Some fix1)"
    "confidence fix1 = float64 (9 / 10)"
    "new_text fix1 =
       (if endswith (rstrip ''  expect(foo(a);  '') '';''
        then butlast (rstrip ''  expect(foo(a);  '')
             @ replicate (count_char (CHR ''('') ''  expect(foo(a);  ''
                          - count_char (CHR '')'') ''  expect(foo(a);  '') (CHR '')'')
             @ '';''
        else rstrip ''  expect(foo(a);  ''
             @ replicate (count_char (CHR ''('') ''  expect(foo(a);  ''
                          - count_char (CHR '')'') ''  expect(foo(a);  '') (CHR '')''))"
    by blast
  then have w1: "\<exists>fix. generate_fix_for_error unmatched_open_diagnostic paren_lines paren_content = Inr (Some fix)
          \<and> confidence fix = 8106479329266893 / 9007199254740992
          \<and> new_text fix = ''  expect(foo(a));''"
    unfolding e1 d1 literal_09 using s1 by simp
  from unmatched_paren_edit [OF c2 r2 g2, of paren_content] n2
  obtain fix2 where
    "generate_fix_for_error unmatched_close_diagnostic paren_lines paren_content = Inr (Some fix2)"
    "confidence fix2 = 6485183463413515 / 9007199254740992"
    "new_text fix2 =
       rstrip (remove_from_end
         (count_char (CHR '')'') ''render(a)) ;'' - count_char (CHR ''('') ''render(a)) ;'')
         (CHR '')'') ''render(a)) ;'')"
    by blast
  then have w2: "\<exists>fix. generate_fix_for_error unmatched_close_diagnostic paren_lines paren_content = Inr (Some fix)
          \<and> confidence fix = 6485183463413515 / 9007199254740992
          \<and> new_text fix = ''render(a) ;''"
    unfolding d2 e2 by simp
  from c1 r1 g1 g2 w1 w2 show ?thesis by (simp only: simp_thms)
qed

subsection \<open>Scenario A\<close>

lemma scenario_a_detect: "detect_specific_errors analysis scenario_a = []"
  by (simp add: detect_specific_errors_def scenario_a_def newline_def detect_line_def
        split_on_def split_str_def
        startswith_def endswith_def strip_def lstrip_def rstrip_def is_space_def)

lemma scenario_a_handler: "fix_incomplete_call error scenario_a line_num = None"
  by (simp add: scenario_a_def fix_incomplete_call_def function_patterns_def
        startswith_def endswith_def strip_def lstrip_def rstrip_def is_space_def)

text \<open>
  C1 does not hold of the code. On the line of Scenario A the pattern detection of the
  parser adapter reports nothing: the line, stripped, already ends with \<open>);\<close>, which
  the test for an incomplete \<open>setSystemTime\<close> call excludes. The handler for
  incomplete calls has the same test and returns no edit even when it is given the
  diagnostic. So detection followed by fix generation and application, with the
  diagnostic of the external parser in the list, produces no edit and leaves the line
  as it was, where the claim expects one \<open>call_completion\<close> edit and the line
  completed with a second closing parenthesis.
\<close>

theorem scenario_a_no_edit:
  "detect_specific_errors analysis scenario_a = []
   \<and> fix_incomplete_call error scenario_a line_num = None
   \<and> fix_content (analysis\<lparr>syntax_errors := [typescript_diagnostic] @ detect_specific_errors analysis scenario_a\<rparr>) scenario_a
     = Inr \<lparr>success = True, fixed_content = ''setSystemTime(new Date(2023, 0, 1);'', fixes_applied = [],
            errors_remaining = [], result_confidence = 1\<rparr>"
proof -
  have pipeline: "fix_content (analysis\<lparr>syntax_errors := [typescript_diagnostic] @ detect_specific_errors analysis scenario_a\<rparr>) scenario_a
     = Inr \<lparr>success = True, fixed_content = scenario_a, fixes_applied = [],
            errors_remaining = [], result_confidence = 1\<rparr>"
    by (simp add: scenario_a_detect fix_content_def generate_fixes_def typescript_diagnostic_def
        sort_reverse_def apply_fixes_def)
  have "scenario_a = ''setSystemTime(new Date(2023, 0, 1);''" by (simp only: scenario_a_def)
  with pipeline scenario_a_detect [of analysis] scenario_a_handler [of error line_num]
  show ?thesis by (simp only: simp_thms)
qed


section \<open>Aggregate confidence of the orchestrator\<close>

lemma calculate_confidence_nonempty:
  assumes "fixes \<noteq> []"
  shows "calculate_confidence original fixed fixes opt_analysis manual_review errors =
     max 0 (min 1
       (9 / 10
        - (if manual_review then 2 / 10 else 0)
        - (1 / 10) * of_nat (length errors)
        + (if (case opt_analysis of None \<Rightarrow> False | Some a \<Rightarrow> is_valid a) then 1 / 10 else 0)
        - (if length fixes > 10 then 1 / 10 else if length fixes > 5 then 5 / 100 else 0)))"
proof -
  have s1: "(if m then b - 2 / 10 else b) = b - (if m then 2 / 10 else 0)" for b :: rat and m
    by simp
  have s2: "(if errors \<noteq> [] then b - (1 / 10) * of_nat (length errors) else b)
              = b - (1 / 10) * of_nat (length errors)" for b :: rat
    by simp
  have s3: "(if v then b + 1 / 10 else b) = b + (if v then 1 / 10 else 0)" for b :: rat and v
    by simp
  have s4: "(if n > 10 then b - 1 / 10 else if n > 5 then b - 5 / 100 else b)
              = b - (if n > 10 then 1 / 10 else if n > 5 then 5 / 100 else 0)"
    for b :: rat and n :: nat
    by simp
  show ?thesis
    unfolding calculate_confidence_def Let_def using assms
    by (simp only: if_False s1 s2 s3 s4)
qed

lemma clamp_bounds: "0 \<le> max 0 (min 1 x) \<and> max 0 (min 1 x) \<le> 1" for x :: rat
  by simp

lemma calculate_confidence_bounds:
  "0 \<le> calculate_confidence original fixed fixes opt_analysis manual_review errors
   \<and> calculate_confidence original fixed fixes opt_analysis manual_review errors \<le> 1"
proof (cases "fixes = []")
  case True
  then show ?thesis by (simp add: calculate_confidence_def)
next
  case False
  from calculate_confidence_nonempty [OF False, of original fixed opt_analysis manual_review errors]
  show ?thesis by (simp only: clamp_bounds simp_thms)
qed





section \<open>The contextual ranking engine\<close>

subsection \<open>The descending stable sort\<close>

lemma mset_insort_desc: "mset (insort_desc f x ys) = add_mset x (mset ys)"
  by (induction ys) auto

lemma mset_sort_reverse: "mset (sort_reverse f xs) = mset xs"
  by (induction xs) (simp_all add: sort_reverse_def mset_insort_desc)

lemma set_insort_desc: "set (insort_desc f x ys) = insert x (set ys)"
  by (induction ys) auto

lemma sorted_insort_desc:
  "sorted_wrt (\<lambda>a b. f b \<le> f a) ys \<Longrightarrow> sorted_wrt (\<lambda>a b. f b \<le> f a) (insort_desc f x ys)"
  by (induction ys) (auto simp: set_insort_desc)

lemma sorted_sort_reverse: "sorted_wrt (\<lambda>a b. f b \<le> f a) (sort_reverse f xs)"
  by (induction xs) (simp_all add: sort_reverse_def sorted_insort_desc)

lemma filter_insort_desc:
  "filter (\<lambda>y. f y = k) (insort_desc f x ys) =
     (if f x = k then x # filter (\<lambda>y. f y = k) ys else filter (\<lambda>y. f y = k) ys)"
  by (induction ys) auto

lemma sort_reverse_stable:
  "filter (\<lambda>y. f y = k) (sort_reverse f xs) = filter (\<lambda>y. f y = k) xs"
  by (induction xs) (simp_all add: sort_reverse_def filter_insort_desc)

lemma contextual_fixes_loop_result:
  "contextual_fixes_loop engine ctx code cands acc = Inr found \<Longrightarrow>
   \<exists>new. found = acc @ new \<and> map Inr new = map (contextual_fix_of engine ctx code) cands"
proof (induction cands arbitrary: acc)
  case Nil
  then show ?case by simp
next
  case (Cons c cands)
  from Cons.prems obtain cf where
    cf: "contextual_fix_of engine ctx code c = Inr cf"
    and rest: "contextual_fixes_loop engine ctx code cands (acc @ [cf]) = Inr found"
    by (auto split: sum.splits)
  from Cons.IH [OF rest] obtain new where
    "found = (acc @ [cf]) @ new"
    "map Inr new = map (contextual_fix_of engine ctx code) cands"
    by blast
  with cf have "found = acc @ (cf # new)
      \<and> map Inr (cf # new) = map (contextual_fix_of engine ctx code) (c # cands)"
    by simp
  then show ?case by blast
qed

lemma contextual_fixes_loop_total:
  "\<forall>c \<in> set cands. d_fix_type c \<noteq> None \<Longrightarrow>
   \<exists>found. contextual_fixes_loop engine ctx code cands acc = Inr found"
proof (induction cands arbitrary: acc)
  case Nil
  then show ?case by simp
next
  case (Cons c cands)
  from Cons.prems obtain t where "d_fix_type c = Some t" by auto
  then obtain cf where "contextual_fix_of engine ctx code c = Inr cf"
    by (simp add: contextual_fix_of_def Let_def)
  with Cons.IH [of "acc @ [cf]"] Cons.prems show ?case by simp
qed

subsection \<open>Ranking\<close>

lemma combined_score_key:
  "combined_score =
     (\<lambda>x. float64 (float64 (cf_confidence x * float64 (7 / 10))
                   + float64 (context_match x * float64 (3 / 10))))"
  by (rule ext) (simp add: combined_score_def)

lemma match_framework:
  "calculate_context_match candidate_framework example_context
     = 5404319552844595 / 18014398509481984"
  by code_simp

lemma match_imports:
  "calculate_context_match candidate_imports example_context
     = 1351079888211149 / 4503599627370496"
  by code_simp

lemma match_import_fix:
  "calculate_context_match candidate_import_fix example_context = 1"
  by code_simp

lemma match_framework_later:
  "calculate_context_match candidate_framework_later example_context
     = 5404319552844595 / 18014398509481984"
  by code_simp

lemma confidence_framework:
  "get_ml_confidence example_engine candidate_framework example_context ''render(x'' = 1 / 2"
  by code_simp

lemma confidence_imports:
  "get_ml_confidence example_engine candidate_imports example_context ''render(x'' = 1 / 2"
  by code_simp

lemma confidence_import_fix:
  "get_ml_confidence example_engine candidate_import_fix example_context ''render(x''
     = 3152519739159347 / 9007199254740992"
  by code_simp

lemma confidence_framework_later:
  "get_ml_confidence example_engine candidate_framework_later example_context ''render(x''
     = 1 / 2"
  by code_simp

lemma example_reasoning:
  "generate_reasoning c example_context [] =
     ''Detected react framework; Identified as component test''"
  by (simp add: generate_reasoning_def example_context_def)

lemma example_history: "find_similar_patterns example_engine code t = []"
  by (simp add: find_similar_patterns_def example_engine_def)

lemma built_framework:
  "contextual_fix_of example_engine example_context ''render(x'' candidate_framework
     = Inr ranked_framework"
  unfolding contextual_fix_of_def match_framework confidence_framework Let_def
    example_history example_reasoning
  by (simp add: candidate_framework_def ranked_framework_def)

lemma built_imports:
  "contextual_fix_of example_engine example_context ''render(x'' candidate_imports
     = Inr ranked_imports"
  unfolding contextual_fix_of_def match_imports confidence_imports Let_def
    example_history example_reasoning
  by (simp add: candidate_imports_def ranked_imports_def)

lemma built_import_fix:
  "contextual_fix_of example_engine example_context ''render(x'' candidate_import_fix
     = Inr ranked_import_fix"
  unfolding contextual_fix_of_def match_import_fix confidence_import_fix Let_def
    example_history example_reasoning
  by (simp add: candidate_import_fix_def ranked_import_fix_def)

lemma built_framework_later:
  "contextual_fix_of example_engine example_context ''render(x'' candidate_framework_later
     = Inr ranked_framework_later"
  unfolding contextual_fix_of_def match_framework_later confidence_framework_later Let_def
    example_history example_reasoning
  by (simp add: candidate_framework_later_def ranked_framework_later_def)

lemma score_framework:
  "combined_score ranked_framework = 990791918021509 / 2251799813685248"
  by code_simp

lemma score_imports:
  "combined_score ranked_imports = 7926335344172073 / 18014398509481984"
  by code_simp

lemma score_import_fix:
  "combined_score ranked_import_fix = 306807724614615 / 562949953421312"
  by code_simp

lemma score_framework_later:
  "combined_score ranked_framework_later = 990791918021509 / 2251799813685248"
  by code_simp

text \<open>
  C7: for every list of candidate fixes on which \<open>suggest_contextual_fixes\<close> returns,
  the result consists of exactly the contextual fixes built from the candidates, it is
  sorted in descending order of the score \<open>0.7 * confidence + 0.3 * context_match\<close>,
  and for every value of that score the fixes with this score appear in the order in
  which they were built, the discovery order. The score of a fix is the double that the
  key \<open>x.confidence * 0.7 + x.context_match * 0.3\<close> evaluates to: the two products and
  their sum are each rounded. The function returns for every list whose candidates all
  carry a \<open>fix_type\<close>; a candidate without one makes \<open>fix['fix_type']\<close> raise
  \<open>KeyError\<close>.
\<close>

theorem ranking_sorted_stable:
  "(\<forall>ranked. suggest_contextual_fixes engine ctx code available_fixes = Inr ranked \<longrightarrow>
      (\<exists>found. map Inr found = map (contextual_fix_of engine ctx code) available_fixes
         \<and> mset ranked = mset found
         \<and> sorted_wrt
             (\<lambda>a b. float64 (float64 (cf_confidence b * float64 (7 / 10))
                              + float64 (context_match b * float64 (3 / 10)))
                    \<le> float64 (float64 (cf_confidence a * float64 (7 / 10))
                               + float64 (context_match a * float64 (3 / 10))))
             ranked
         \<and> (\<forall>k. filter
                   (\<lambda>x. float64 (float64 (cf_confidence x * float64 (7 / 10))
                                 + float64 (context_match x * float64 (3 / 10))) = k)
                   ranked
                 = filter
                     (\<lambda>x. float64 (float64 (cf_confidence x * float64 (7 / 10))
                                   + float64 (context_match x * float64 (3 / 10))) = k)
                     found)))
   \<and> ((\<forall>c \<in> set available_fixes. d_fix_type c \<noteq> None) \<longrightarrow>
        (\<exists>ranked. suggest_contextual_fixes engine ctx code available_fixes = Inr ranked))"
proof (intro conjI allI impI)
  fix ranked
  assume ret: "suggest_contextual_fixes engine ctx code available_fixes = Inr ranked"
  then obtain found where
    loop: "contextual_fixes_loop engine ctx code available_fixes [] = Inr found"
    and ranked: "ranked = sort_reverse combined_score found"
    by (auto simp: suggest_contextual_fixes_def split: sum.splits)
  from contextual_fixes_loop_result [OF loop]
  have built: "map Inr found = map (contextual_fix_of engine ctx code) available_fixes"
    by simp
  have perm: "mset ranked = mset found"
    unfolding ranked by (rule mset_sort_reverse)
  have sorted: "sorted_wrt (\<lambda>a b. combined_score b \<le> combined_score a) ranked"
    unfolding ranked by (rule sorted_sort_reverse)
  have stable: "\<forall>k. filter (\<lambda>x. combined_score x = k) ranked
                  = filter (\<lambda>x. combined_score x = k) found"
    unfolding ranked by (simp add: sort_reverse_stable)
  from built perm sorted stable
  show "\<exists>found. map Inr found = map (contextual_fix_of engine ctx code) available_fixes
         \<and> mset ranked = mset found
         \<and> sorted_wrt
             (\<lambda>a b. float64 (float64 (cf_confidence b * float64 (7 / 10))
                              + float64 (context_match b * float64 (3 / 10)))
                    \<le> float64 (float64 (cf_confidence a * float64 (7 / 10))
                               + float64 (context_match a * float64 (3 / 10))))
             ranked
         \<and> (\<forall>k. filter
                   (\<lambda>x. float64 (float64 (cf_confidence x * float64 (7 / 10))
                                 + float64 (context_match x * float64 (3 / 10))) = k)
                   ranked
                 = filter
                     (\<lambda>x. float64 (float64 (cf_confidence x * float64 (7 / 10))
                                   + float64 (context_match x * float64 (3 / 10))) = k)
                     found)"
    unfolding combined_score_key by blast
next
  assume "\<forall>c \<in> set available_fixes. d_fix_type c \<noteq> None"
  from contextual_fixes_loop_total [OF this, of engine ctx code "[]"]
  show "\<exists>ranked. suggest_contextual_fixes engine ctx code available_fixes = Inr ranked"
    by (auto simp: suggest_contextual_fixes_def)
qed

theorem ranking_sorted_stable_witness:
  "suggest_contextual_fixes example_engine example_context ''render(x''
      [candidate_framework, candidate_imports, candidate_import_fix, candidate_framework_later]
     = Inr [ranked_import_fix, ranked_imports, ranked_framework, ranked_framework_later]
   \<and> float64 (float64 (cf_confidence ranked_import_fix * float64 (7 / 10))
              + float64 (context_match ranked_import_fix * float64 (3 / 10)))
       = 306807724614615 / 562949953421312
   \<and> float64 (float64 (cf_confidence ranked_imports * float64 (7 / 10))
              + float64 (context_match ranked_imports * float64 (3 / 10)))
       = 7926335344172073 / 18014398509481984
   \<and> float64 (float64 (cf_confidence ranked_framework * float64 (7 / 10))
              + float64 (context_match ranked_framework * float64 (3 / 10)))
       = 990791918021509 / 2251799813685248
   \<and> float64 (float64 (cf_confidence ranked_framework_later * float64 (7 / 10))
              + float64 (context_match ranked_framework_later * float64 (3 / 10)))
       = 990791918021509 / 2251799813685248
   \<and> cf_confidence ranked_import_fix < cf_confidence ranked_framework
   \<and> sorted_wrt
        (\<lambda>a b. float64 (float64 (cf_confidence b * float64 (7 / 10))
                         + float64 (context_match b * float64 (3 / 10)))
               \<le> float64 (float64 (cf_confidence a * float64 (7 / 10))
                          + float64 (context_match a * float64 (3 / 10))))
        [ranked_import_fix, ranked_imports, ranked_framework, ranked_framework_later]
   \<and> filter
        (\<lambda>x. float64 (float64 (cf_confidence x * float64 (7 / 10))
                      + float64 (context_match x * float64 (3 / 10)))
             = 990791918021509 / 2251799813685248)
        [ranked_import_fix, ranked_imports, ranked_framework, ranked_framework_later]
       = [ranked_framework, ranked_framework_later]
   \<and> d_fix_type candidate_framework \<noteq> None
   \<and> d_fix_type candidate_imports \<noteq> None
   \<and> d_fix_type candidate_import_fix \<noteq> None
   \<and> d_fix_type candidate_framework_later \<noteq> None
   \<and> (\<exists>ranked. suggest_contextual_fixes example_engine example_context ''render(x''
          [candidate_framework, candidate_imports, candidate_import_fix,
           candidate_framework_later] = Inr ranked)"
proof -
  let ?cands = "[candidate_framework, candidate_imports, candidate_import_fix,
    candidate_framework_later]"
  let ?found = "[ranked_framework, ranked_imports, ranked_import_fix, ranked_framework_later]"
  let ?ranked = "[ranked_import_fix, ranked_imports, ranked_framework, ranked_framework_later]"
  have ret: "suggest_contextual_fixes example_engine example_context ''render(x'' ?cands
     = Inr ?ranked"
    by (simp add: suggest_contextual_fixes_def built_framework built_imports built_import_fix
        built_framework_later sort_reverse_def score_framework score_imports score_import_fix
        score_framework_later)
  have typed: "\<forall>c \<in> set ?cands. d_fix_type c \<noteq> None"
    by (simp add: candidate_framework_def candidate_imports_def candidate_import_fix_def
        candidate_framework_later_def)
  have k1: "float64 (float64 (cf_confidence ranked_import_fix * float64 (7 / 10))
              + float64 (context_match ranked_import_fix * float64 (3 / 10)))
       = 306807724614615 / 562949953421312"
    and k2: "float64 (float64 (cf_confidence ranked_imports * float64 (7 / 10))
              + float64 (context_match ranked_imports * float64 (3 / 10)))
       = 7926335344172073 / 18014398509481984"
    and k3: "float64 (float64 (cf_confidence ranked_framework * float64 (7 / 10))
              + float64 (context_match ranked_framework * float64 (3 / 10)))
       = 990791918021509 / 2251799813685248"
    and k4: "float64 (float64 (cf_confidence ranked_framework_later * float64 (7 / 10))
              + float64 (context_match ranked_framework_later * float64 (3 / 10)))
       = 990791918021509 / 2251799813685248"
    using score_import_fix score_imports score_framework score_framework_later
    unfolding combined_score_def by blast+
  have lower: "cf_confidence ranked_import_fix < cf_confidence ranked_framework"
    by (simp add: ranked_import_fix_def ranked_framework_def)
  note inst = ranking_sorted_stable
    [of example_engine example_context "''render(x''" ?cands]
  from inst ret obtain found where
    found: "map Inr found = map (contextual_fix_of example_engine example_context ''render(x'') ?cands"
    and sorted: "sorted_wrt
        (\<lambda>a b. float64 (float64 (cf_confidence b * float64 (7 / 10))
                         + float64 (context_match b * float64 (3 / 10)))
               \<le> float64 (float64 (cf_confidence a * float64 (7 / 10))
                          + float64 (context_match a * float64 (3 / 10))))
        ?ranked"
    and stable: "\<forall>k. filter
                   (\<lambda>x. float64 (float64 (cf_confidence x * float64 (7 / 10))
                                 + float64 (context_match x * float64 (3 / 10))) = k)
                   ?ranked
                 = filter
                     (\<lambda>x. float64 (float64 (cf_confidence x * float64 (7 / 10))
                                   + float64 (context_match x * float64 (3 / 10))) = k)
                     found"
    by blast
  from found
  have "map Inr found = map (Inr :: ContextualFix \<Rightarrow> exn + ContextualFix) ?found"
    by (simp only: list.map built_framework built_imports built_import_fix
          built_framework_later)
  then have "found = ?found"
    by (rule injD [OF inj_mapI [OF inj_Inr]])
  with stable have "filter
        (\<lambda>x. float64 (float64 (cf_confidence x * float64 (7 / 10))
                      + float64 (context_match x * float64 (3 / 10)))
             = 990791918021509 / 2251799813685248)
        ?ranked
       = filter
        (\<lambda>x. float64 (float64 (cf_confidence x * float64 (7 / 10))
                      + float64 (context_match x * float64 (3 / 10)))
             = 990791918021509 / 2251799813685248)
        ?found"
    by blast
  also have "\<dots> = [ranked_framework, ranked_framework_later]"
    by (simp add: k1 k2 k3 k4)
  finally have tie: "filter
        (\<lambda>x. float64 (float64 (cf_confidence x * float64 (7 / 10))
                      + float64 (context_match x * float64 (3 / 10)))
             = 990791918021509 / 2251799813685248)
        ?ranked
       = [ranked_framework, ranked_framework_later]" .
  from inst typed
  have total: "\<exists>ranked. suggest_contextual_fixes example_engine example_context ''render(x''
          ?cands = Inr ranked"
    by blast
  from ret k1 k2 k3 k4 lower sorted tie typed total show ?thesis by simp
qed

section \<open>The type fix generator\<close>

lemma missing_member_message:
  "search_property (td_message missing_member_diagnostic) = Some ''getByText''"
  by (simp add: missing_member_diagnostic_def match_property_at_def startswith_def apostrophe_def)

text \<open>
  C6, as the claim states it, fails: only the branch for mock lines tests for
  \<open>as any\<close>. On a line without \<open>mockReturnValue\<close> and \<open>mockImplementation\<close> that
  contains \<open>screen.\<close>, a diagnostic for one of the eight \<open>getBy\<close> queries yields an
  \<open>import_fix\<close> edit although the line already holds the cast.
\<close>

theorem cast_line_edit_counterexample:
  "contains ''as any'' cast_query_line
   \<and> fix_property_not_exist missing_member_diagnostic cast_query_line =
      Some \<lparr>tf_line = 12, tf_column = 23, tf_fix_type = ''import_fix'',
            tf_old_text = ''const el = screen.getByText(label as any);'',
            tf_new_text = ''const el = screen.getByText(label as any);'',
            tf_description = ''Valid screen query '' @ [apostrophe] @ ''getByText''
                      @ [apostrophe] @ '' - ensure proper imports'',
            tf_confidence = 9 / 10, type_info = Some ''screen_query''\<rparr>"
  by (simp add: fix_property_not_exist_def missing_member_message cast_query_line_def
        startswith_def valid_queries_def strip_def lstrip_def rstrip_def is_space_def)
     (simp add: missing_member_diagnostic_def)

text \<open>
  C6 (amended): for every missing-member diagnostic whose target line already
  contains \<open>as any\<close>, the handler adds no cast. It emits no edit at all, except on a
  line without \<open>mockReturnValue\<close> and \<open>mockImplementation\<close> that contains
  \<open>screen.\<close> when the missing property is one of the eight valid \<open>getBy\<close> queries:
  there it emits an \<open>import_fix\<close> edit whose new text equals its old text, the
  stripped line, with no cast added.
\<close>

theorem no_cast_added:
  assumes cast: "contains ''as any'' txt"
  shows "fix_property_not_exist diagnostic txt = None
     \<or> (\<exists>name. search_property (td_message diagnostic) = Some name
           \<and> name \<in> set valid_queries
           \<and> contains ''screen.'' txt
           \<and> \<not> contains ''mockReturnValue'' txt
           \<and> \<not> contains ''mockImplementation'' txt
           \<and> fix_property_not_exist diagnostic txt =
               Some \<lparr>tf_line = td_line diagnostic,
                    tf_column = td_column diagnostic,
                    tf_fix_type = ''import_fix'',
                    tf_old_text = strip txt,
                    tf_new_text = strip txt,
                    tf_description = ''Valid screen query '' @ [apostrophe] @ name
                      @ [apostrophe] @ '' - ensure proper imports'',
                    tf_confidence = 9 / 10,
                    type_info = Some ''screen_query''\<rparr>)"
proof (cases "search_property (td_message diagnostic)")
  case None
  then show ?thesis by (simp add: fix_property_not_exist_def)
next
  case (Some name)
  show ?thesis
  proof (cases "contains ''mockReturnValue'' txt \<or> contains ''mockImplementation'' txt")
    case True
    with Some cast show ?thesis by (simp add: fix_property_not_exist_def)
  next
    case False
    show ?thesis
    proof (cases "contains ''screen.'' txt \<and> startswith name ''getBy'' \<and> name \<in> set valid_queries")
      case True
      with Some False show ?thesis by (simp add: fix_property_not_exist_def)
    next
      case nope: False
      with Some False have "fix_property_not_exist diagnostic txt = None"
        by (auto simp add: fix_property_not_exist_def)
      then show ?thesis by simp
    qed
  qed
qed

theorem no_cast_added_witness:
  "contains ''as any'' cast_mock_line
   \<and> contains ''mockReturnValue'' cast_mock_line
   \<and> fix_property_not_exist missing_member_diagnostic cast_mock_line = None"
proof -
  have cast: "contains ''as any'' cast_mock_line"
    by (simp add: cast_mock_line_def startswith_def)
  have mock: "contains ''mockReturnValue'' cast_mock_line"
    by (simp add: cast_mock_line_def startswith_def)
  from no_cast_added [OF cast, of missing_member_diagnostic] mock
  have "fix_property_not_exist missing_member_diagnostic cast_mock_line = None"
    by blast
  with cast mock show ?thesis by simp
qed


section \<open>The parser adapter\<close>

lemma parse_handler_failed: "pr_success (parse_handler e) = False"
  by (cases e) (simp_all add: parse_failure_def)

lemma parse_failed_cases:
  assumes "run_node env (files env) path = Inl e
           \<or> (run_node env (files env) path = Inr p \<and> returncode p \<noteq> 0)"
  shows "\<not> pr_success (parse env path)"
  using assms
  by (auto simp: parse_def parse_handler_failed parse_failure_def split: option.splits)

lemma analyze_file_parse_failed:
  assumes "\<exists>ext \<in> set supported_extensions. endswith path ext"
    and "\<not> pr_success (parse env path)"
  shows "analyze_file env path =
           Inr \<lparr>is_valid = False,
                syntax_errors =
                  [\<lparr>err_line = 1, err_column = 1,
                    message = (case pr_error (parse env path) of
                                 None \<Rightarrow> ''Unknown parse error'' | Some m \<Rightarrow> m),
                    severity = ''error'', error_code = ''PARSE_FAILED'', source = ''ast''\<rparr>],
                ast_nodes = [], parse_time = elapsed env,
                file_type = (case pr_fileType (parse env path) of
                               None \<Rightarrow> ''unknown'' | Some t \<Rightarrow> t)\<rparr>"
  using assms by (simp add: analyze_file_def Let_def)

text \<open>
  C5: for a file of a supported type, whenever the call of the external parser fails,
  that is the Node process raises (a timeout or any other exception) or exits with a
  non-zero code, \<open>analyze_file\<close> raises nothing and returns an analysis that is not
  valid and whose diagnostic list is exactly one diagnostic with error code
  \<open>PARSE_FAILED\<close>, on line 1, column 1, with source \<open>ast\<close>. (For a file of another
  type the parser is not called.)
\<close>

theorem parser_failure_single_diagnostic:
  assumes supported: "\<exists>ext \<in> set supported_extensions. endswith path ext"
    and failed: "run_node env (files env) path = Inl e
           \<or> (run_node env (files env) path = Inr p \<and> returncode p \<noteq> 0)"
  shows "\<exists>msg kind. analyze_file env path =
           Inr \<lparr>is_valid = False,
                syntax_errors =
                  [\<lparr>err_line = 1, err_column = 1, message = msg, severity = ''error'',
                    error_code = ''PARSE_FAILED'', source = ''ast''\<rparr>],
                ast_nodes = [], parse_time = elapsed env, file_type = kind\<rparr>"
  using analyze_file_parse_failed [OF supported parse_failed_cases [OF failed]]
  by blast

theorem parser_failure_single_diagnostic_witness:
  "endswith ''src/form.test.tsx'' ''.tsx''
   \<and> run_node timeout_world (files timeout_world) ''src/form.test.tsx''
       = Inl (TimeoutExpired ''Command timed out after 30 seconds'')
   \<and> analyze_file timeout_world ''src/form.test.tsx'' =
       Inr \<lparr>is_valid = False,
            syntax_errors =
              [\<lparr>err_line = 1, err_column = 1, message = ''Parse timeout'', severity = ''error'',
                error_code = ''PARSE_FAILED'', source = ''ast''\<rparr>],
            ast_nodes = [], parse_time = 30, file_type = ''unknown''\<rparr>
   \<and> returncode \<lparr>returncode = 1, stdout = [], stderr = ''Error: Cannot find module typescript''\<rparr> \<noteq> 0
   \<and> analyze_file crash_world ''src/form.test.tsx'' =
       Inr \<lparr>is_valid = False,
            syntax_errors =
              [\<lparr>err_line = 1, err_column = 1,
                message = ''Error: Cannot find module typescript'', severity = ''error'',
                error_code = ''PARSE_FAILED'', source = ''ast''\<rparr>],
            ast_nodes = [], parse_time = 1 / 2, file_type = ''unknown''\<rparr>"
proof -
  have ext: "endswith ''src/form.test.tsx'' ''.tsx''"
    by (simp add: endswith_def)
  then have sup: "\<exists>ext \<in> set supported_extensions. endswith ''src/form.test.tsx'' ext"
    by (simp add: supported_extensions_def)
  have t: "run_node timeout_world (files timeout_world) ''src/form.test.tsx''
       = Inl (TimeoutExpired ''Command timed out after 30 seconds'')"
    by (simp add: timeout_world_def)
  have c: "run_node crash_world (files crash_world) ''src/form.test.tsx''
       = Inr \<lparr>returncode = 1, stdout = [], stderr = ''Error: Cannot find module typescript''\<rparr>"
    by (simp add: crash_world_def)
  have tp: "parse timeout_world ''src/form.test.tsx'' = parse_failure ''Parse timeout''"
    by (simp add: parse_def timeout_world_def)
  have cp: "parse crash_world ''src/form.test.tsx''
              = parse_failure ''Error: Cannot find module typescript''"
    by (simp add: parse_def crash_world_def)
  from parser_failure_single_diagnostic [OF sup disjI1 [OF t]]
  obtain m1 k1 where a1: "analyze_file timeout_world ''src/form.test.tsx'' =
           Inr \<lparr>is_valid = False,
                syntax_errors =
                  [\<lparr>err_line = 1, err_column = 1, message = m1, severity = ''error'',
                    error_code = ''PARSE_FAILED'', source = ''ast''\<rparr>],
                ast_nodes = [], parse_time = elapsed timeout_world, file_type = k1\<rparr>"
    by blast
  have c': "run_node crash_world (files crash_world) ''src/form.test.tsx''
       = Inr \<lparr>returncode = 1, stdout = [], stderr = ''Error: Cannot find module typescript''\<rparr>
       \<and> returncode \<lparr>returncode = 1, stdout = [],
            stderr = ''Error: Cannot find module typescript''\<rparr> \<noteq> 0"
    using c by simp
  from parser_failure_single_diagnostic [OF sup disjI2 [OF c']]
  obtain m2 k2 where a2: "analyze_file crash_world ''src/form.test.tsx'' =
           Inr \<lparr>is_valid = False,
                syntax_errors =
                  [\<lparr>err_line = 1, err_column = 1, message = m2, severity = ''error'',
                    error_code = ''PARSE_FAILED'', source = ''ast''\<rparr>],
                ast_nodes = [], parse_time = elapsed crash_world, file_type = k2\<rparr>"
    by blast
  from a1 analyze_file_parse_failed [OF sup, of timeout_world] tp
  have b1: "m1 = ''Parse timeout'' \<and> k1 = ''unknown''"
    by (simp add: parse_failure_def)
  from a2 analyze_file_parse_failed [OF sup, of crash_world] cp
  have b2: "m2 = ''Error: Cannot find module typescript'' \<and> k2 = ''unknown''"
    by (simp add: parse_failure_def)
  have el: "elapsed timeout_world = 30" "elapsed crash_world = 1 / 2"
    by (simp_all add: timeout_world_def crash_world_def)
  from ext t a1 a2 b1 b2 el show ?thesis by simp
qed


section \<open>Per-file and batch results\<close>

lemma process_file_success_iff:
  "ng_success (fst (process_file self env path dry_run))
     = (0 < total_fixes (fst (process_file self env path dry_run)))"
  by (simp add: process_file_def critical_error_def Let_def
        split: option.splits sum.splits prod.splits)

lemma process_file_confidence:
  "0 \<le> confidence_score (fst (process_file self env path dry_run))"
  using calculate_confidence_bounds
  by (simp add: process_file_def critical_error_def Let_def
        split: option.splits sum.splits prod.splits)

lemma process_file_cases:
  "fst (process_file self env path dry_run) = r \<Longrightarrow>
     ng_success r = (0 < total_fixes r) \<and> 0 \<le> confidence_score r"
  using process_file_success_iff [of self env path dry_run]
        process_file_confidence [of self env path dry_run] by auto

lemma ast_phase_clean:
  assumes "analyze_with_content env path (current_content st) = Inr a"
    and "generate_fixes a (current_content st) = Inr []"
  shows "current_content (ast_phase self env path st) = current_content st
       \<and> all_fixes (ast_phase self env path st) = all_fixes st"
  using assms by (simp add: ast_phase_def Let_def)

lemma enhanced_phase_clean:
  assumes "changes_made (enhanced_fix_file env (path @ ''.temp'') (current_content st)) = []"
  shows "current_content (fst (enhanced_phase self env path st)) = current_content st
       \<and> all_fixes (fst (enhanced_phase self env path st)) = all_fixes st"
  using assms by (simp add: enhanced_phase_def Let_def split: option.splits)

lemma process_file_clean:
  assumes rd: "files env path = Some original"
    and an: "analyze_with_content env path original = Inr a"
    and gen: "generate_fixes a original = Inr []"
    and enh: "changes_made (enhanced_fix_file env (path @ ''.temp'') original) = []"
  shows "ng_success (fst (process_file self env path dry_run)) = False
       \<and> total_fixes (fst (process_file self env path dry_run)) = 0
       \<and> ng_fixed_content (fst (process_file self env path dry_run)) = original
       \<and> confidence_score (fst (process_file self env path dry_run)) = 1"
proof -
  define st0 where "st0 = \<lparr>current_content = original, all_fixes = [], by_engine = [],
      analysis_result = None, review_flag = False, remaining_errors = []\<rparr>"
  define st1 where "st1 = ast_phase self env path st0"
  have c0: "current_content st0 = original" "all_fixes st0 = []" by (simp_all add: st0_def)
  from ast_phase_clean [of env path st0 a self] an gen c0
  have c1: "current_content st1 = original" "all_fixes st1 = []" by (simp_all add: st1_def)
  obtain st2 env2 where e2: "enhanced_phase self env path st1 = (st2, env2)"
    by (cases "enhanced_phase self env path st1")
  from enhanced_phase_clean [of env path st1 self] enh c1 e2
  have c2: "current_content st2 = original" "all_fixes st2 = []" by simp_all
  then have c3: "refine_phase self env2 path st2 = st2" by (simp add: refine_phase_def)
  from rd e2 c2 c3 show ?thesis
    by (simp add: process_file_def Let_def calculate_confidence_def
          flip: st0_def st1_def)
qed

lemma batch_step_results: "results (batch_step path r b) = results b @ [r]"
  by (simp add: batch_step_def Let_def)

lemma batch_step_fixed:
  "fixed_count (batch_step path r b) = fixed_count b + (if ng_success r then 1 else 0)"
  by (simp add: batch_step_def Let_def)

lemma batch_step_confidence:
  "total_confidence (batch_step path r b)
     = total_confidence b + (if ng_success r then confidence_score r else 0)"
  by (simp add: batch_step_def Let_def)

lemma batch_loop_counts:
  "batch_loop paths dry_run self env b = (b', self', env') \<Longrightarrow>
   \<exists>rs. results b' = results b @ rs
      \<and> length rs = length paths
      \<and> (\<forall>r \<in> set rs. ng_success r = (0 < total_fixes r) \<and> 0 \<le> confidence_score r)
      \<and> fixed_count b' = fixed_count b + length (filter ng_success rs)
      \<and> total_confidence b' = total_confidence b
           + sum_list (map confidence_score (filter ng_success rs))"
proof (induction paths arbitrary: self env b)
  case Nil
  then show ?case by simp
next
  case (Cons p paths)
  obtain r self1 env1 where pf: "process_file self env p dry_run = (r, self1, env1)"
    by (cases "process_file self env p dry_run") auto
  with Cons.prems have rest:
    "batch_loop paths dry_run self1 env1 (batch_step p r b) = (b', self', env')"
    by simp
  from pf have ok: "ng_success r = (0 < total_fixes r) \<and> 0 \<le> confidence_score r"
    using process_file_cases [of self env p dry_run r] by simp
  from Cons.IH [OF rest] obtain rs where rs:
    "results b' = results (batch_step p r b) @ rs"
    "length rs = length paths"
    "\<forall>r \<in> set rs. ng_success r = (0 < total_fixes r) \<and> 0 \<le> confidence_score r"
    "fixed_count b' = fixed_count (batch_step p r b) + length (filter ng_success rs)"
    "total_confidence b' = total_confidence (batch_step p r b)
           + sum_list (map confidence_score (filter ng_success rs))"
    by blast
  show ?case
  proof (intro exI [of _ "r # rs"] conjI)
    show "results b' = results b @ r # rs" using rs(1) by (simp add: batch_step_results)
    show "length (r # rs) = length (p # paths)" using rs(2) by simp
    show "\<forall>x \<in> set (r # rs). ng_success x = (0 < total_fixes x) \<and> 0 \<le> confidence_score x"
      using rs(3) ok by simp
    show "fixed_count b' = fixed_count b + length (filter ng_success (r # rs))"
      using rs(4) by (simp add: batch_step_fixed)
    show "total_confidence b' = total_confidence b
           + sum_list (map confidence_score (filter ng_success (r # rs)))"
      using rs(5) by (simp add: batch_step_confidence)
  qed
qed

lemma process_directory_report:
  assumes "fst (process_directory self env directory dry_run) = report"
  shows "total_files report = length (detailed_results report)
       \<and> (\<forall>r \<in> set (detailed_results report).
              ng_success r = (0 < total_fixes r) \<and> 0 \<le> confidence_score r)
       \<and> files_fixed report = length (filter ng_success (detailed_results report))
       \<and> success_rate report =
            (if detailed_results report = [] then 0
             else of_nat (length (filter ng_success (detailed_results report)))
                    / of_nat (length (detailed_results report)))
       \<and> average_confidence report =
            (if detailed_results report = [] then 0
             else sum_list (map confidence_score (filter ng_success (detailed_results report)))
                    / of_nat (length (detailed_results report)))"
proof -
  let ?files = "concat (map (glob env directory) test_patterns)"
  let ?b0 = "\<lparr>results = [], review_files = [], sum_fixes = 0,
                 total_confidence = 0, fixed_count = 0\<rparr>"
  obtain b self1 env1 where loop: "batch_loop ?files dry_run self env ?b0 = (b, self1, env1)"
    by (cases "batch_loop ?files dry_run self env ?b0") auto
  from batch_loop_counts [OF loop] obtain rs where rs:
    "results b = rs" "length rs = length ?files"
    "\<forall>r \<in> set rs. ng_success r = (0 < total_fixes r) \<and> 0 \<le> confidence_score r"
    "fixed_count b = length (filter ng_success rs)"
    "total_confidence b = sum_list (map confidence_score (filter ng_success rs))"
    by auto
  from rs(2) have emp: "(?files = []) = (rs = [])" by (metis length_0_conv)
  from assms loop rs emp show ?thesis
    by (auto simp: process_directory_def Let_def)
qed

lemma share_drops:
  fixes x :: rat
  assumes "0 \<le> x" and "n = 0 \<longrightarrow> x = 0"
  shows "x / (of_nat n + 1) \<le> (if n = 0 then 0 else x / of_nat n)"
    and "0 < x \<Longrightarrow> x / (of_nat n + 1) < x / of_nat n"
proof -
  show "x / (of_nat n + 1) \<le> (if n = 0 then 0 else x / of_nat n)"
  proof (cases "n = 0")
    case True
    with assms show ?thesis by simp
  next
    case False
    then show ?thesis using assms by (simp add: frac_le)
  qed
  show "x / (of_nat n + 1) < x / of_nat n" if "0 < x"
  proof -
    from that assms have "n \<noteq> 0" by auto
    with that show ?thesis by (simp add: frac_less2)
  qed
qed

lemma sum_confidence_nonneg:
  "\<forall>r \<in> set rs. 0 \<le> confidence_score r \<Longrightarrow>
   0 \<le> sum_list (map confidence_score (filter ng_success rs))"
  by (induction rs) auto

subsection \<open>Evaluation on a small world\<close>

lemma refine_loop_disabled:
  "\<not> enable_ast_analysis self \<Longrightarrow> refine_loop n self env path i st = st"
  by (induction n arbitrary: i) (simp_all add: refine_step_def)

lemma refine_phase_disabled:
  "\<not> enable_ast_analysis self \<Longrightarrow> refine_phase self env path st = st"
  by (simp add: refine_phase_def refine_loop_disabled)

lemma ast_phase_disabled:
  "\<not> enable_ast_analysis self \<Longrightarrow> ast_phase self env path st = st"
  by (simp add: ast_phase_def)

lemma demo_flags: "\<not> enable_ast_analysis demo_fixer" "enable_enhanced_fixes demo_fixer"
  by (simp_all add: demo_fixer_def)

lemma process_demo_clean: "fst (process_file self env ''app/a.test.tsx'' True) = clean_result"
  if "\<not> enable_ast_analysis self"
    and "files env ''app/a.test.tsx'' = Some ''const x = 1;''"
    and "open_write env = (\<lambda>p. None)"
    and "enhanced_fix_file env = (\<lambda>p c. if c = ''let y = 2'' then semicolon_added else no_changes)"
    and "elapsed env = 1 / 2"
  using that
  by (simp add: process_file_def ast_phase_disabled refine_phase_disabled
        enhanced_phase_def no_changes_def calculate_confidence_def clean_result_def Let_def)

lemma process_demo_fixed: "fst (process_file self env ''app/b.test.tsx'' True) = fixed_result"
  if "\<not> enable_ast_analysis self" and "enable_enhanced_fixes self"
    and "files env ''app/b.test.tsx'' = Some ''let y = 2''"
    and "open_write env = (\<lambda>p. None)"
    and "enhanced_fix_file env = (\<lambda>p c. if c = ''let y = 2'' then semicolon_added else no_changes)"
    and "elapsed env = 1 / 2"
  using that
  by (simp add: process_file_def ast_phase_disabled refine_phase_disabled
        enhanced_phase_def semicolon_added_def calculate_confidence_def fixed_result_def Let_def)

lemma enhanced_phase_world:
  "enhanced_phase self env path st = (st', env') \<Longrightarrow>
   \<exists>f. env' = env\<lparr>files := f\<rparr> \<and> (\<forall>p. p \<noteq> path @ ''.temp'' \<longrightarrow> f p = files env p)"
proof (cases "enable_enhanced_fixes self \<and> open_write env (path @ ''.temp'') = None")
  case True
  assume "enhanced_phase self env path st = (st', env')"
  with True have "env' = env\<lparr>files := (files env)(path @ ''.temp'' := None)\<rparr>"
    by (auto simp: enhanced_phase_def Let_def)
  then show ?thesis by (intro exI[of _ "(files env)(path @ ''.temp'' := None)"]) simp
next
  case False
  assume "enhanced_phase self env path st = (st', env')"
  with False have "env' = env"
    by (auto simp: enhanced_phase_def Let_def split: option.splits if_splits)
  then have "env' = env\<lparr>files := files env\<rparr>" by simp
  then show ?thesis by (intro exI[of _ "files env"]) simp
qed

lemma process_file_frame:
  assumes "process_file self env path True = (r, self', env')"
  shows "enable_ast_analysis self' = enable_ast_analysis self
       \<and> enable_enhanced_fixes self' = enable_enhanced_fixes self
       \<and> (\<exists>f. env' = env\<lparr>files := f\<rparr> \<and> (\<forall>p. p \<noteq> path @ ''.temp'' \<longrightarrow> f p = files env p))"
proof (cases "files env path")
  case None
  with assms have "self' = self" "env' = env\<lparr>files := files env\<rparr>"
    by (simp_all add: process_file_def)
  then show ?thesis by (intro conjI exI[of _ "files env"]) simp_all
next
  case (Some original)
  let ?st0 = "\<lparr>current_content = original, all_fixes = [], by_engine = [],
      analysis_result = None, review_flag = False, remaining_errors = []\<rparr>"
  obtain st2 env2 where e2: "enhanced_phase self env path (ast_phase self env path ?st0) = (st2, env2)"
    by (cases "enhanced_phase self env path (ast_phase self env path ?st0)")
  from assms Some e2 have "env' = env2"
    and "enable_ast_analysis self' = enable_ast_analysis self"
    and "enable_enhanced_fixes self' = enable_enhanced_fixes self"
    by (auto simp: process_file_def Let_def)
  with enhanced_phase_world [OF e2] show ?thesis by simp
qed

lemma demo_glob:
  "concat (map (glob demo_world ''app'') test_patterns) = [''app/a.test.tsx'', ''app/b.test.tsx'']"
  by (simp add: demo_world_def test_patterns_def)

lemma demo_batch: "fst (process_directory demo_fixer demo_world ''app'' True) = demo_report"
proof -
  obtain r1 s1 e1 where p1: "process_file demo_fixer demo_world ''app/a.test.tsx'' True = (r1, s1, e1)"
    by (cases "process_file demo_fixer demo_world ''app/a.test.tsx'' True") auto
  have "fst (process_file demo_fixer demo_world ''app/a.test.tsx'' True) = clean_result"
    by (rule process_demo_clean) (simp_all add: demo_fixer_def demo_world_def)
  with p1 have r1: "r1 = clean_result" by simp
  from process_file_frame [OF p1] obtain f where
    s1: "\<not> enable_ast_analysis s1" "enable_enhanced_fixes s1"
    and e1: "e1 = demo_world\<lparr>files := f\<rparr>"
    and f: "f ''app/b.test.tsx'' = files demo_world ''app/b.test.tsx''"
    by (auto simp: demo_fixer_def)
  obtain r2 s2 e2 where p2: "process_file s1 e1 ''app/b.test.tsx'' True = (r2, s2, e2)"
    by (cases "process_file s1 e1 ''app/b.test.tsx'' True") auto
  have "fst (process_file s1 e1 ''app/b.test.tsx'' True) = fixed_result"
    by (rule process_demo_fixed) (simp_all add: s1 e1 f demo_world_def)
  with p2 have r2: "r2 = fixed_result" by simp
  have be: "batch_elapsed e2 = 1"
    using process_file_frame [OF p2] e1 by (auto simp: demo_world_def)
  from p1 p2 r1 r2 be show ?thesis
    by (simp add: process_directory_def demo_glob batch_step_def Let_def
          clean_result_def fixed_result_def demo_report_def)
qed

lemma suffix_demo_a: "path_suffix ''app/a.test.tsx'' = ''.tsx''"
  by (simp add: path_suffix_def path_name_def split_on_def split_str_def startswith_def Let_def)

lemma analyze_file_demo:
  "run_node env = (\<lambda>fs p. Inr \<lparr>returncode = 1, stdout = [], stderr = ''no parser''\<rparr>)
   \<Longrightarrow> ensure_typescript_installed env = None
   \<Longrightarrow> node_script_path env = Some ''/tmp/parser.js''
   \<Longrightarrow> elapsed env = 1 / 2
   \<Longrightarrow> analyze_file env ''/tmp/tmpk3x9.tsx'' = Inr demo_analysis"
  by (simp add: analyze_file_def parse_def parse_failure_def supported_extensions_def
        endswith_def Let_def demo_analysis_def parse_failed_diagnostic_def)

lemma detect_demo_a: "detect_specific_errors an ''const x = 1;'' = []"
  by (simp add: detect_specific_errors_def detect_line_def split_on_def split_str_def
        startswith_def newline_def)

lemma analyze_demo_a:
  "analyze_with_content demo_world ''app/a.test.tsx'' ''const x = 1;'' = Inr demo_analysis"
  by (simp add: analyze_with_content_def suffix_demo_a detect_demo_a analyze_file_demo
        demo_world_def Let_def)

lemma generate_demo_a: "generate_fixes demo_analysis ''const x = 1;'' = Inr []"
  by (simp add: generate_fixes_def demo_analysis_def parse_failed_diagnostic_def
        generate_fix_for_error_def list_get_def py_index_def split_on_def split_str_def
        startswith_def newline_def fix_general_parse_error_def strip_def lstrip_def rstrip_def
        is_space_def endswith_def sort_reverse_def Let_def)

subsection \<open>The success flag\<close>

text \<open>
  C9: the success flag of the result of \<open>process_file\<close> is true exactly when its
  number of fixes is positive. For a file that needs no fix, that is one that can be
  read, for which the analysis yields no syntax fix and the pattern-based fixer makes
  no change, the result has \<open>success\<close> false, no fix, the content unchanged and
  confidence 1. In the report of \<open>process_directory\<close>, a result \<open>r\<close> without fixes is
  not successful and is not counted in \<open>files_fixed\<close>, while it is counted in
  \<open>total_files\<close>; its confidence does not enter the sum of \<open>average_confidence\<close>.
  Both \<open>success_rate\<close> and \<open>average_confidence\<close> are therefore at most what the other
  results alone would give, and strictly lower as soon as one file was fixed
  (respectively as soon as the confidences of the fixed files have a positive sum).
\<close>

theorem clean_file_not_successful:
  "ng_success (fst (process_file self env path dry_run))
     = (0 < total_fixes (fst (process_file self env path dry_run)))
   \<and> (files env path = Some original
        \<and> analyze_with_content env path original = Inr a
        \<and> generate_fixes a original = Inr []
        \<and> changes_made (enhanced_fix_file env (path @ ''.temp'') original) = []
      \<longrightarrow> ng_success (fst (process_file self env path dry_run)) = False
        \<and> total_fixes (fst (process_file self env path dry_run)) = 0
        \<and> ng_fixed_content (fst (process_file self env path dry_run)) = original
        \<and> confidence_score (fst (process_file self env path dry_run)) = 1)
   \<and> (fst (process_directory self env directory dry_run) = report
        \<and> detailed_results report = before @ r # after
        \<and> total_fixes r = 0
      \<longrightarrow> ng_success r = False
        \<and> files_fixed report = length (filter ng_success (before @ after))
        \<and> total_files report = length (before @ after) + 1
        \<and> success_rate report = of_nat (files_fixed report) / of_nat (total_files report)
        \<and> average_confidence report =
             sum_list (map confidence_score (filter ng_success (before @ after)))
               / of_nat (total_files report)
        \<and> success_rate report \<le>
             (if before @ after = [] then 0
              else of_nat (files_fixed report) / of_nat (length (before @ after)))
        \<and> (0 < files_fixed report \<longrightarrow>
             success_rate report < of_nat (files_fixed report) / of_nat (length (before @ after)))
        \<and> average_confidence report \<le>
             (if before @ after = [] then 0
              else sum_list (map confidence_score (filter ng_success (before @ after)))
                     / of_nat (length (before @ after)))
        \<and> (0 < sum_list (map confidence_score (filter ng_success (before @ after))) \<longrightarrow>
             average_confidence report <
               sum_list (map confidence_score (filter ng_success (before @ after)))
                 / of_nat (length (before @ after))))"
  (is "?P1 \<and> (?H2 \<longrightarrow> ?C2) \<and> (?H3 \<longrightarrow> ?C3)")
proof -
  have p1: ?P1 by (rule process_file_success_iff)
  have p2: ?C2 if ?H2
    using that process_file_clean [of env path original a self dry_run] by blast
  have p3: ?C3 if h: ?H3
  proof -
    let ?others = "before @ after"
    let ?n = "length ?others"
    let ?sum = "sum_list (map confidence_score (filter ng_success ?others))"
    from h have rep: "fst (process_directory self env directory dry_run) = report"
      and res: "detailed_results report = before @ r # after"
      and r0: "total_fixes r = 0" by simp_all
    note facts = process_directory_report [OF rep]
    from facts res r0 have nr: "ng_success r = False" by auto
    from facts res nr have ff: "files_fixed report = length (filter ng_success ?others)"
      by simp
    from facts res have tf: "total_files report = ?n + 1" by simp
    from facts res ff tf
    have sr: "success_rate report = of_nat (files_fixed report) / of_nat (total_files report)"
      by simp
    from facts res nr tf
    have ac: "average_confidence report = ?sum / of_nat (total_files report)"
      by simp
    from facts res have "\<forall>x \<in> set ?others. 0 \<le> confidence_score x" by auto
    then have s0: "0 \<le> ?sum" by (rule sum_confidence_nonneg)
    have z1: "?n = 0 \<longrightarrow> (of_nat (files_fixed report) :: rat) = 0" using ff by simp
    have z2: "?n = 0 \<longrightarrow> ?sum = 0" by simp
    have f0: "(0 :: rat) \<le> of_nat (files_fixed report)" by simp
    have tfr: "(of_nat (total_files report) :: rat) = of_nat ?n + 1"
      using tf by simp
    have sr': "success_rate report = of_nat (files_fixed report) / (of_nat ?n + 1)"
      using sr tfr by (simp only:)
    have ac': "average_confidence report = ?sum / (of_nat ?n + 1)"
      using ac tfr by (simp only:)
    have emp: "(?others = []) = (?n = 0)"
      by (rule length_0_conv [symmetric])
    have le1: "success_rate report \<le>
               (if ?others = [] then 0 else of_nat (files_fixed report) / of_nat ?n)"
      unfolding sr' emp by (rule share_drops(1) [OF f0 z1])
    have lt1: "success_rate report < of_nat (files_fixed report) / of_nat ?n"
      if "0 < files_fixed report"
    proof -
      from that have "(0 :: rat) < of_nat (files_fixed report)" by simp
      then show ?thesis unfolding sr' by (rule share_drops(2) [OF f0 z1])
    qed
    have le2: "average_confidence report \<le> (if ?others = [] then 0 else ?sum / of_nat ?n)"
      unfolding ac' emp by (rule share_drops(1) [OF s0 z2])
    have lt2: "average_confidence report < ?sum / of_nat ?n" if "0 < ?sum"
      using that unfolding ac' by (rule share_drops(2) [OF s0 z2])
    from nr ff tf sr ac le1 lt1 le2 lt2 show ?thesis by blast
  qed
  from p1 p2 p3 show ?thesis by blast
qed

theorem clean_file_not_successful_witness:
  "files demo_world ''app/a.test.tsx'' = Some ''const x = 1;''
   \<and> analyze_with_content demo_world ''app/a.test.tsx'' ''const x = 1;'' = Inr demo_analysis
   \<and> generate_fixes demo_analysis ''const x = 1;'' = Inr []
   \<and> changes_made (enhanced_fix_file demo_world (''app/a.test.tsx'' @ ''.temp'') ''const x = 1;'') = []
   \<and> ng_success (fst (process_file demo_fixer demo_world ''app/a.test.tsx'' True)) = False
   \<and> total_fixes (fst (process_file demo_fixer demo_world ''app/a.test.tsx'' True)) = 0
   \<and> confidence_score (fst (process_file demo_fixer demo_world ''app/a.test.tsx'' True)) = 1
   \<and> fst (process_directory demo_fixer demo_world ''app'' True) = demo_report
   \<and> detailed_results demo_report = [] @ clean_result # [fixed_result]
   \<and> total_fixes clean_result = 0
   \<and> ng_success clean_result = False
   \<and> files_fixed demo_report = 1
   \<and> total_files demo_report = 2
   \<and> success_rate demo_report = 1 / 2
   \<and> success_rate demo_report < of_nat (files_fixed demo_report) / of_nat (length ([] @ [fixed_result]))
   \<and> average_confidence demo_report = 9 / 20
   \<and> average_confidence demo_report <
        sum_list (map confidence_score (filter ng_success ([] @ [fixed_result])))
          / of_nat (length ([] @ [fixed_result]))"
proof -
  note inst = clean_file_not_successful
    [of demo_fixer demo_world "''app/a.test.tsx''" True "''const x = 1;''" demo_analysis
        "''app''" demo_report "[]" clean_result "[fixed_result]"]
  have h1: "files demo_world ''app/a.test.tsx'' = Some ''const x = 1;''"
    by (simp add: demo_world_def)
  have h2: "changes_made (enhanced_fix_file demo_world (''app/a.test.tsx'' @ ''.temp'') ''const x = 1;'') = []"
    by (simp add: demo_world_def no_changes_def)
  have h3: "detailed_results demo_report = [] @ clean_result # [fixed_result]"
    by (simp add: demo_report_def)
  have h4: "total_fixes clean_result = 0" by (simp add: clean_result_def)
  from inst h1 analyze_demo_a generate_demo_a h2
  have c2: "ng_success (fst (process_file demo_fixer demo_world ''app/a.test.tsx'' True)) = False
        \<and> total_fixes (fst (process_file demo_fixer demo_world ''app/a.test.tsx'' True)) = 0
        \<and> confidence_score (fst (process_file demo_fixer demo_world ''app/a.test.tsx'' True)) = 1"
    by blast
  have pos: "0 < files_fixed demo_report"
    and posc: "0 < sum_list (map confidence_score (filter ng_success ([] @ [fixed_result])))"
    by (simp_all add: demo_report_def fixed_result_def)
  from inst demo_batch h3 h4 pos posc
  have c3: "ng_success clean_result = False
        \<and> success_rate demo_report
             < of_nat (files_fixed demo_report) / of_nat (length ([] @ [fixed_result]))
        \<and> average_confidence demo_report <
             sum_list (map confidence_score (filter ng_success ([] @ [fixed_result])))
               / of_nat (length ([] @ [fixed_result]))"
    by blast
  have vals: "files_fixed demo_report = 1" "total_files demo_report = 2"
    "success_rate demo_report = 1 / 2" "average_confidence demo_report = 9 / 20"
    by (simp_all add: demo_report_def)
  from h1 analyze_demo_a generate_demo_a h2 c2 demo_batch h3 h4 c3 vals
  show ?thesis by (simp only: simp_thms)
qed


section \<open>The number of lines of the output\<close>

lemma set_rstrip: "set (rstrip s) \<subseteq> set s"
proof -
  have "set (dropWhile is_space (rev s)) \<subseteq> set (rev s)"
    by (auto dest: set_dropWhileD)
  then show ?thesis by (simp add: rstrip_def)
qed

lemma set_remove_from_end: "set (remove_from_end k c s) \<subseteq> set s"
proof -
  have "set ((remove1 c ^^ k) t) \<subseteq> set t" for t
  proof (induction k)
    case 0
    then show ?case by simp
  next
    case (Suc k)
    have "set (remove1 c ((remove1 c ^^ k) t)) \<subseteq> set ((remove1 c ^^ k) t)"
      by (rule set_remove1_subset)
    with Suc show ?case by auto
  qed
  from this [of "rev s"] show ?thesis by (simp add: remove_from_end_def)
qed

lemma set_replace_str: "set (replace_str old new s) \<subseteq> set s \<union> set new"
proof (induction old new s rule: replace_str.induct)
  case (1 old new)
  then show ?case by auto
next
  case (2 old new c cs)
  have "set (drop (length old) (c # cs)) \<subseteq> set (c # cs)" by (rule set_drop_subset)
  with 2 show ?case by (auto simp del: drop_Suc_Cons)
qed

lemma set_split_str_acc:
  "p \<in> set (split_str_acc sep acc s) \<Longrightarrow> set p \<subseteq> set acc \<union> set s"
proof (induction sep acc s arbitrary: p rule: split_str_acc.induct)
  case (1 sep acc)
  then show ?case by simp
next
  case (2 sep acc c cs)
  show ?case
  proof (cases "sep \<noteq> [] \<and> startswith (c # cs) sep")
    case True
    with "2.prems" have "p = rev acc \<or> p \<in> set (split_str_acc sep [] (drop (length sep) (c # cs)))"
      by simp
    then show ?thesis
    proof
      assume "p = rev acc"
      then show ?thesis by auto
    next
      assume "p \<in> set (split_str_acc sep [] (drop (length sep) (c # cs)))"
      from "2.IH"(1) [OF True this]
      have "set p \<subseteq> set (drop (length sep) (c # cs))" by simp
      moreover have "set (drop (length sep) (c # cs)) \<subseteq> set (c # cs)"
        by (rule set_drop_subset)
      ultimately show ?thesis by blast
    qed
  next
    case False
    with "2.prems" have "p \<in> set (split_str_acc sep (c # acc) cs)" by auto
    from "2.IH"(2) [OF False this] show ?thesis by auto
  qed
qed

lemma set_split_str: "p \<in> set (split_str sep s) \<Longrightarrow> set p \<subseteq> set s"
  using set_split_str_acc [of p sep "[]" s] by (simp add: split_str_def)

lemma split_str_nonempty: "split_str sep s \<noteq> []"
proof -
  have "split_str_acc sep acc s \<noteq> []" for acc
    by (induction sep acc s rule: split_str_acc.induct) auto
  then show ?thesis by (simp add: split_str_def)
qed

lemma newline_unmatched:
  assumes "newline \<notin> set txt" and "fix_unmatched_parentheses e txt n = Some f"
  shows "newline \<notin> set (new_text f)"
proof -
  have r: "newline \<notin> set (rstrip txt)" using assms(1) set_rstrip by blast
  then have b: "newline \<notin> set (butlast (rstrip txt))" by (auto dest: in_set_butlastD)
  have m: "newline \<notin> set (rstrip (remove_from_end k (CHR '')'') txt))" for k
    using assms(1) set_rstrip set_remove_from_end by blast
  from assms(2) r b m show ?thesis
    by (auto simp: fix_unmatched_parentheses_def Let_def remove_last_paren_funpow newline_def
          split: if_splits)
qed

lemma newline_incomplete_patterns:
  assumes "newline \<notin> set txt" and "incomplete_call_patterns ps txt n = Some f"
  shows "newline \<notin> set (new_text f)"
  using assms(2)
proof (induction ps)
  case Nil
  then show ?case by simp
next
  case (Cons p ps)
  have r: "newline \<notin> set (rstrip txt)" using assms(1) set_rstrip by blast
  from Cons r show ?case
    by (auto simp: Let_def newline_def split: if_splits)
qed

lemma newline_incomplete_call:
  assumes "newline \<notin> set txt" and "fix_incomplete_call e txt n = Some f"
  shows "newline \<notin> set (new_text f)"
proof (cases "contains ''setSystemTime('' txt \<and> contains '';'' txt \<and> \<not> endswith (strip txt) '');''")
  case True
  let ?new = "take (index_str '';'' txt) txt @ '')'' @ drop (index_str '';'' txt) txt"
  have "set ?new \<subseteq> insert (CHR '')'') (set txt)"
    by (auto dest: in_set_takeD in_set_dropD)
  with assms(1) have "newline \<notin> set ?new" by (auto simp: newline_def)
  with set_rstrip have "newline \<notin> set (rstrip ?new)" by blast
  with True assms(2) show ?thesis
    by (auto simp: fix_incomplete_call_def Let_def)
next
  case False
  with assms(2) have "incomplete_call_patterns function_patterns txt n = Some f"
    by (auto simp: fix_incomplete_call_def)
  from newline_incomplete_patterns [OF assms(1) this] show ?thesis .
qed

lemma newline_malformed_timeout:
  assumes "newline \<notin> set txt" and "fix_malformed_timeout e txt n = Some f"
  shows "newline \<notin> set (new_text f)"
proof -
  let ?a = "replace_str ''setTimeout((;'' ''setTimeout(()'' txt"
  let ?parts = "split_str ''=>'' txt"
  let ?b = "hd ?parts @ ''=>'' @ concat (drop 2 ?parts)"
  have "set ?a \<subseteq> set txt \<union> set ''setTimeout(()''" by (rule set_replace_str)
  with assms(1) have "newline \<notin> set ?a" by (auto simp: newline_def)
  with set_rstrip have a: "newline \<notin> set (rstrip ?a)" by blast
  have "hd ?parts \<in> set ?parts" using split_str_nonempty by simp
  then have h: "set (hd ?parts) \<subseteq> set txt" by (rule set_split_str)
  have "set (concat (drop 2 ?parts)) \<subseteq> set txt"
    using set_split_str [of _ "''=>''" "txt"] by (auto dest: in_set_dropD)
  with h assms(1) have "newline \<notin> set ?b" by (auto simp: newline_def)
  with set_rstrip have b: "newline \<notin> set (rstrip ?b)" by blast
  from assms(2) a b show ?thesis
    by (auto simp: fix_malformed_timeout_def Let_def split: if_splits)
qed

lemma newline_general:
  assumes "newline \<notin> set txt" and "fix_general_parse_error e txt n = Some f"
  shows "newline \<notin> set (new_text f)"
proof -
  have r: "newline \<notin> set (rstrip txt)" using assms(1) set_rstrip by blast
  from assms(2) r show ?thesis
    by (auto simp: fix_general_parse_error_def newline_def split: if_splits)
qed

lemma list_get_member: "list_get xs i = Inr x \<Longrightarrow> x \<in> set xs"
  by (auto simp: list_get_def py_index_def split: option.splits if_splits)

lemma newline_generate_fix:
  assumes "\<forall>l \<in> set lines. newline \<notin> set l"
    and "generate_fix_for_error e lines content = Inr (Some f)"
  shows "newline \<notin> set (new_text f)"
proof -
  from assms(2) obtain t where g: "list_get lines (err_line e - 1) = Inr t"
    by (auto simp: generate_fix_for_error_def Let_def split: if_splits sum.splits)
  from list_get_member [OF g] assms(1) have nl: "newline \<notin> set t" by blast
  from assms(2) g consider
      "fix_unmatched_parentheses e t (err_line e) = Some f"
    | "fix_incomplete_call e t (err_line e) = Some f"
    | "fix_malformed_timeout e t (err_line e) = Some f"
    | "fix_general_parse_error e t (err_line e) = Some f"
    by (auto simp: generate_fix_for_error_def Let_def split: if_splits)
  then show ?thesis
    using newline_unmatched [OF nl] newline_incomplete_call [OF nl]
      newline_malformed_timeout [OF nl] newline_general [OF nl]
    by cases blast+
qed

lemma newline_collect:
  assumes "\<forall>l \<in> set lines. newline \<notin> set l"
  shows "collect_fixes es lines content acc = Inr fs \<Longrightarrow>
         \<forall>f \<in> set acc. newline \<notin> set (new_text f) \<Longrightarrow>
         \<forall>f \<in> set fs. newline \<notin> set (new_text f)"
proof (induction es arbitrary: acc)
  case Nil
  then show ?case by simp
next
  case (Cons e es)
  show ?case
  proof (cases "source e = ''ast''")
    case False
    with Cons show ?thesis by simp
  next
    case True
    show ?thesis
    proof (cases "generate_fix_for_error e lines content")
      case (Inl x)
      with True Cons.prems show ?thesis by simp
    next
      case (Inr opt)
      show ?thesis
      proof (cases opt)
        case None
        with Inr True Cons show ?thesis by simp
      next
        case (Some f)
        with Inr newline_generate_fix [OF assms] have "newline \<notin> set (new_text f)" by blast
        with Cons.prems(2) have "\<forall>g \<in> set (acc @ [f]). newline \<notin> set (new_text g)" by auto
        moreover from Some Inr True Cons.prems(1)
        have "collect_fixes es lines content (acc @ [f]) = Inr fs" by simp
        ultimately show ?thesis using Cons.IH by blast
      qed
    qed
  qed
qed

lemma set_sort_reverse: "set (sort_reverse f xs) = set xs"
  by (induction xs) (simp_all add: sort_reverse_def set_insort_desc)

lemma generated_fixes_single_line:
  assumes "generate_fixes analysis content = Inr fs"
  shows "\<forall>f \<in> set fs. newline \<notin> set (new_text f)"
proof -
  from assms obtain raw where
    c: "collect_fixes (syntax_errors analysis) (split_on newline content) content [] = Inr raw"
    and fs: "fs = sort_reverse (\<lambda>x. (line x, column x)) raw"
    by (auto simp: generate_fixes_def split: sum.splits)
  have "\<forall>l \<in> set (split_on newline content). newline \<notin> set l"
    using split_on_no_sep by blast
  from newline_collect [OF this c] fs show ?thesis by (simp add: set_sort_reverse)
qed

lemma apply_fixes_same_lines:
  assumes nl: "\<forall>f \<in> set fs. newline \<notin> set (new_text f)"
    and ret: "apply_fixes content fs = Inr r"
  shows "length (split_on newline (fixed_content r)) = length (split_on newline content)"
proof (cases "fs = []")
  case True
  with ret show ?thesis by (auto simp: apply_fixes_def)
next
  case False
  with ret obtain ls ap where
    loop: "apply_loop (split_on newline content) [] fs = Inr (ls, ap)"
    and fc: "fixed_content r = join_with [newline] ls"
    by (auto simp: apply_fixes_def split: sum.splits)
  from apply_loop_result [OF loop]
  have len: "length ls = length (split_on newline content)" by simp
  then have ne: "ls \<noteq> []" using split_on_nonempty [of newline content] by auto
  have "\<forall>l \<in> set (split_on newline content). newline \<notin> set l"
    using split_on_no_sep by blast
  from apply_loop_no_newline [OF loop this nl]
  have "\<forall>l \<in> set ls. newline \<notin> set l" .
  with ne have "split_on newline (join_with [newline] ls) = ls"
    by (rule split_on_join)
  with fc len show ?thesis by simp
qed

lemma apply_fixes_returns:
  assumes "\<forall>f \<in> set fs. - int (length (split_on newline content)) < line f"
  shows "\<exists>r. apply_fixes content fs = Inr r"
  using apply_loop_total [OF assms, of "[]"] by (auto simp: apply_fixes_def)

lemma fix_content_same_lines:
  assumes "fix_content analysis content = Inr r"
  shows "length (split_on newline (fixed_content r)) = length (split_on newline content)"
proof -
  from assms obtain fs where g: "generate_fixes analysis content = Inr fs"
    and a: "apply_fixes content fs = Inr r"
    by (auto simp: fix_content_def split: sum.splits)
  from apply_fixes_same_lines [OF generated_fixes_single_line [OF g] a] show ?thesis .
qed

text \<open>
  C10, as the claim states it, fails: an edit is a whole-line replacement of the
  list of lines, but its \<open>new_text\<close> is any string, and a \<open>new_text\<close> with a line
  break in it makes the joined output one line longer than the input.
\<close>

theorem line_count_counterexample:
  "apply_fixes ''a'' [two_line_edit] =
     Inr \<lparr>success = True, fixed_content = ''b'' @ [newline] @ ''c'',
          fixes_applied = [two_line_edit],
          errors_remaining = [], result_confidence = 9 / 10\<rparr>
   \<and> length (split_on newline ''a'') = 1
   \<and> length (split_on newline (''b'' @ [newline] @ ''c'')) = 2"
  by (simp add: apply_fixes_def two_line_edit_def list_get_def list_set_def py_index_def newline_def split_on_def split_str_def startswith_def)

text \<open>
  C10 (amended): for every content and every fix list in which no \<open>new_text\<close>
  contains a line break, whenever \<open>apply_fixes\<close> returns a result its output has
  exactly as many lines as the input: every applied edit replaces one whole line and
  none inserts or deletes a line. It returns a result whenever every edit has a line
  number above minus the number of lines (in particular for line numbers from 1 on);
  below that, the list access raises \<open>IndexError\<close>. The edits that \<open>generate_fixes\<close>
  produces never contain a line break, so generation followed by application
  (\<open>fix_content\<close>) keeps the number of lines whenever it returns.
\<close>

theorem apply_fixes_line_count:
  "((\<forall>f \<in> set fs. newline \<notin> set (new_text f)) \<and> apply_fixes content fs = Inr r \<longrightarrow>
      length (split_on newline (fixed_content r)) = length (split_on newline content))
   \<and> ((\<forall>f \<in> set fs. - int (length (split_on newline content)) < line f) \<longrightarrow>
        (\<exists>r. apply_fixes content fs = Inr r))
   \<and> (fix_content analysis content = Inr r' \<longrightarrow>
        length (split_on newline (fixed_content r')) = length (split_on newline content))"
  using apply_fixes_same_lines [of fs content r] apply_fixes_returns [of fs content]
    fix_content_same_lines [of analysis content r']
  by blast

theorem apply_fixes_line_count_witness:
  "newline \<notin> set (new_text structural_edit)
   \<and> newline \<notin> set (new_text stale_edit_5)
   \<and> apply_fixes (''x'' @ [newline] @ ''y'') [structural_edit, stale_edit_5] = Inr two_line_result
   \<and> length (split_on newline (fixed_content two_line_result)) =
       length (split_on newline (''x'' @ [newline] @ ''y''))
   \<and> - int (length (split_on newline (''x'' @ [newline] @ ''y''))) < line structural_edit
   \<and> - int (length (split_on newline (''x'' @ [newline] @ ''y''))) < line stale_edit_5
   \<and> fix_content demo_analysis ''let y = 2'' = Inr semicolon_result
   \<and> length (split_on newline (fixed_content semicolon_result)) =
       length (split_on newline ''let y = 2'')"
proof -
  note inst = apply_fixes_line_count
    [of "[structural_edit, stale_edit_5]" "''x'' @ [newline] @ ''y''" two_line_result]
  note inst2 = apply_fixes_line_count [of "[]" "''let y = 2''" _ demo_analysis semicolon_result]
  have nl: "\<forall>f \<in> set [structural_edit, stale_edit_5]. newline \<notin> set (new_text f)"
    by (simp add: structural_edit_def stale_edit_5_def newline_def)
  have ret: "apply_fixes (''x'' @ [newline] @ ''y'') [structural_edit, stale_edit_5] =
       Inr two_line_result"
    by (simp add: apply_fixes_def structural_edit_def stale_edit_5_def two_line_result_def
          list_get_def list_set_def py_index_def newline_def split_on_def split_str_def
          startswith_def)
  have lo: "\<forall>f \<in> set [structural_edit, stale_edit_5].
      - int (length (split_on newline (''x'' @ [newline] @ ''y''))) < line f"
    by (simp add: structural_edit_def stale_edit_5_def)
  have gen: "generate_fixes demo_analysis ''let y = 2'' = Inr [semicolon_edit]"
    by (simp add: generate_fixes_def demo_analysis_def parse_failed_diagnostic_def
        generate_fix_for_error_def list_get_def py_index_def split_on_def split_str_def
        startswith_def newline_def fix_general_parse_error_def strip_def lstrip_def rstrip_def
        is_space_def endswith_def sort_reverse_def Let_def statement_patterns_def
        semicolon_edit_def)
  have app: "apply_fixes ''let y = 2'' [semicolon_edit] = Inr semicolon_result"
    by (simp add: apply_fixes_def semicolon_edit_def semicolon_result_def list_get_def
        list_set_def py_index_def split_on_def split_str_def startswith_def newline_def)
  from gen app have fc: "fix_content demo_analysis ''let y = 2'' = Inr semicolon_result"
    by (simp add: fix_content_def)
  from inst nl ret
  have c1: "length (split_on newline (fixed_content two_line_result)) =
       length (split_on newline (''x'' @ [newline] @ ''y''))"
    by blast
  from inst2 fc
  have c3: "length (split_on newline (fixed_content semicolon_result)) =
       length (split_on newline ''let y = 2'')"
    by blast
  from nl lo ret c1 fc c3 show ?thesis by simp
qed


end
